theory Spec2Isabelle
  imports Complex_Main "HOL-Library.Word" "HOL-Library.Sublist" "HOL-Library.AList"
begin

unbundle bit_operations_syntax

section \<open>JavaScript and Node.js primitives used by the AES67 nodes\<close>

text \<open>
  A \<^verbatim>\<open>Buffer\<close> is a list of bytes. JavaScript numbers that hold integers are
  modelled as \<^typ>\<open>int\<close>; all values met here stay far below \<open>2 ^ 53\<close>, where
  doubles are exact. A value that need not be an integer or even a number (the loss
  rate, a quotient; a property of a parsed object) is a \<open>js_number\<close>: \<^verbatim>\<open>NaN\<close>, an
  infinity, or a \<^typ>\<open>real\<close>. The buffer cap, a product, is a \<^typ>\<open>real\<close>. The rounding
  of a real to a double is not modelled.
\<close>

type_synonym byte = "8 word"
type_synonym buffer = "byte list"

datatype js_error = RangeError

text \<open>The bitwise operators first convert to a signed 32-bit integer (\<^verbatim>\<open>ToInt32\<close>).\<close>

definition ToInt32 :: "int \<Rightarrow> int" where
  "ToInt32 x = signed_take_bit 31 x"

text \<open>\<^verbatim>\<open>a & b\<close>\<close>

definition js_and :: "int \<Rightarrow> int \<Rightarrow> int" where
  "js_and a b = ToInt32 a AND ToInt32 b"

text \<open>\<^verbatim>\<open>a >> n\<close>: sign-propagating shift, the count taken modulo 32.\<close>

definition js_shr :: "int \<Rightarrow> nat \<Rightarrow> int" where
  "js_shr a n = drop_bit (n mod 32) (ToInt32 a)"

text \<open>
  \<^verbatim>\<open>buffer[i]\<close>. Every use below sits behind a length check that puts \<open>i\<close>
  in range (out of range JavaScript yields \<^verbatim>\<open>undefined\<close>).
\<close>

definition byteAt :: "buffer \<Rightarrow> nat \<Rightarrow> int" where
  "byteAt buf i = uint (buf ! i)"

text \<open>\<^verbatim>\<open>buf.readUInt16BE(offset)\<close> and \<^verbatim>\<open>buf.readUInt32BE(offset)\<close> throw a
  \<^verbatim>\<open>RangeError\<close> when the read does not fit in the buffer.\<close>

definition readUInt16BE :: "buffer \<Rightarrow> nat \<Rightarrow> js_error + int" where
  "readUInt16BE buf off =
     (if off + 2 \<le> length buf
      then Inr (byteAt buf off * 256 + byteAt buf (off + 1))
      else Inl RangeError)"

definition readUInt32BE :: "buffer \<Rightarrow> nat \<Rightarrow> js_error + int" where
  "readUInt32BE buf off =
     (if off + 4 \<le> length buf
      then Inr (byteAt buf off * 16777216 + byteAt buf (off + 1) * 65536
                + byteAt buf (off + 2) * 256 + byteAt buf (off + 3))
      else Inl RangeError)"

text \<open>
  \<^verbatim>\<open>buf.slice(start, end)\<close>: each offset is clamped to the buffer; a negative one
  counts from the end; an offset equal to zero (also \<^verbatim>\<open>-0\<close>) is zero. An absent
  \<^verbatim>\<open>end\<close> is \<open>None\<close>.
\<close>

definition adjustOffset :: "int \<Rightarrow> nat \<Rightarrow> nat" where
  "adjustOffset offset len =
     (if offset = 0 then 0
      else if offset < 0 then (if int len + offset > 0 then nat (int len + offset) else 0)
      else if offset < int len then nat offset
      else len)"

definition slice :: "buffer \<Rightarrow> int \<Rightarrow> int option \<Rightarrow> buffer" where
  "slice buf start end' =
     (let srcLength = length buf;
          s = adjustOffset start srcLength;
          e = (case end' of None \<Rightarrow> srcLength | Some e' \<Rightarrow> adjustOffset e' srcLength)
      in take (e - s) (drop s buf))"

text \<open>\<^verbatim>\<open>Buffer.allocUnsafe(n)\<close>: \<open>n\<close> bytes of unspecified content, here whatever
  \<open>junk\<close> holds at each index.\<close>

definition allocUnsafe :: "(nat \<Rightarrow> byte) \<Rightarrow> nat \<Rightarrow> buffer" where
  "allocUnsafe junk n = map junk [0..<n]"

text \<open>One possible content of fresh memory: all zero.\<close>

definition zeroFill :: "nat \<Rightarrow> byte" where
  "zeroFill i = 0"

text \<open>
  \<^verbatim>\<open>buf[i] = v\<close>: the value is reduced modulo 256; \<^verbatim>\<open>NaN\<close> and
  \<^verbatim>\<open>undefined\<close> (\<open>None\<close>) store 0; an index outside the buffer is ignored.
\<close>

definition storedByte :: "int option \<Rightarrow> byte" where
  "storedByte v = (case v of None \<Rightarrow> 0 | Some n \<Rightarrow> word_of_int n)"

definition setByte :: "buffer \<Rightarrow> nat \<Rightarrow> int option \<Rightarrow> buffer" where
  "setByte buf i v = (if i < length buf then buf[i := storedByte v] else buf)"

text \<open>\<^verbatim>\<open>buf.writeUInt16BE(value, offset)\<close> throws when the value or the offset is out of range.\<close>

definition writeUInt16BE :: "buffer \<Rightarrow> int \<Rightarrow> nat \<Rightarrow> js_error + buffer" where
  "writeUInt16BE buf v off =
     (if v < 0 \<or> v > 65535 \<or> off + 2 > length buf then Inl RangeError
      else Inr (buf[off := word_of_int (v div 256), off + 1 := word_of_int v]))"

text \<open>\<^verbatim>\<open>source.copy(target, targetStart)\<close>: copies as many bytes as fit.\<close>

definition copy :: "buffer \<Rightarrow> buffer \<Rightarrow> nat \<Rightarrow> buffer" where
  "copy source target targetStart =
     (if targetStart \<ge> length target then target
      else (let n = min (length source) (length target - targetStart)
            in take targetStart target @ take n source @ drop (targetStart + n) target))"

text \<open>
  A JavaScript string is modelled by the bytes of its UTF-8 encoding, one \<^typ>\<open>char\<close>
  per byte, so \<^verbatim>\<open>Buffer.from(s, 'utf8')\<close> and \<^verbatim>\<open>buf.toString('utf8')\<close> only
  change the element type. (For the ASCII literals below \<^verbatim>\<open>'ascii'\<close> is the same.)
\<close>

definition Buffer_from :: "string \<Rightarrow> buffer" where
  "Buffer_from s = map of_char s"

definition toString :: "buffer \<Rightarrow> string" where
  "toString buf = map (\<lambda>b. char_of (unat b)) buf"

text \<open>\<^verbatim>\<open>buf.write(string, offset, 'ascii')\<close>: writes as many bytes as fit.\<close>

definition bufWrite :: "buffer \<Rightarrow> string \<Rightarrow> nat \<Rightarrow> buffer" where
  "bufWrite buf s off = copy (Buffer_from s) buf off"

text \<open>\<^verbatim>\<open>s.split(sep)\<close> for a one-character separator.\<close>

fun js_split :: "char \<Rightarrow> string \<Rightarrow> string list" where
  "js_split sep [] = [[]]"
| "js_split sep (c # cs) =
     (if c = sep then [] # js_split sep cs
      else (case js_split sep cs of [] \<Rightarrow> [[c]] | w # ws \<Rightarrow> (c # w) # ws))"

text \<open>
  \<^verbatim>\<open>parseInt(s)\<close> with no radix, as the encoders apply it to the parts of the source
  address: leading white space, a sign, an optional \<^verbatim>\<open>0x\<close>, then the longest run of
  digits; \<open>None\<close> is \<^verbatim>\<open>NaN\<close>. The model is exact for a string whose leading white
  space is ASCII and whose digits denote a number below \<open>2 ^ 53\<close>; white space beyond
  ASCII and the rounding of longer digit strings are not modelled.
\<close>

definition isWhiteSpace :: "char \<Rightarrow> bool" where
  "isWhiteSpace c = (c \<in> {CHR '' '', CHR 0x09, CHR 0x0A, CHR 0x0B, CHR 0x0C, CHR 0x0D})"

definition digitValue :: "char \<Rightarrow> nat option" where
  "digitValue c =
     (let n = (of_char c :: nat)
      in if 48 \<le> n \<and> n \<le> 57 then Some (n - 48)
         else if 97 \<le> n \<and> n \<le> 122 then Some (n - 87)
         else if 65 \<le> n \<and> n \<le> 90 then Some (n - 55)
         else None)"

definition isDigitIn :: "nat \<Rightarrow> char \<Rightarrow> bool" where
  "isDigitIn R c = (case digitValue c of None \<Rightarrow> False | Some d \<Rightarrow> d < R)"

definition parseDigits :: "nat \<Rightarrow> string \<Rightarrow> nat" where
  "parseDigits R Z = foldl (\<lambda>acc c. acc * R + (case digitValue c of None \<Rightarrow> 0 | Some d \<Rightarrow> d)) 0 Z"

definition parseInt :: "string \<Rightarrow> int option" where
  "parseInt inputString =
     (let S = dropWhile isWhiteSpace inputString;
          neg = (S \<noteq> [] \<and> hd S = CHR ''-'');
          S1 = (if S \<noteq> [] \<and> (hd S = CHR ''-'' \<or> hd S = CHR ''+'') then tl S else S);
          hex = (prefix ''0x'' S1 \<or> prefix ''0X'' S1);
          R = (if hex then 16 else 10);
          S2 = (if hex then drop 2 S1 else S1);
          Z = takeWhile (isDigitIn R) S2
      in if Z = [] then None
         else Some ((if neg then - 1 else 1) * int (parseDigits R Z)))"

text \<open>An integer inside a template literal: its decimal digits.\<close>

definition digitChar :: "nat \<Rightarrow> char" where
  "digitChar d = char_of (48 + d)"

fun showNat :: "nat \<Rightarrow> string" where
  "showNat n = (if n < 10 then [digitChar n] else showNat (n div 10) @ [digitChar (n mod 10)])"

declare showNat.simps [simp del]

definition showInt :: "int \<Rightarrow> string" where
  "showInt i = (if i < 0 then CHR ''-'' # showNat (nat (- i)) else showNat (nat i))"

text \<open>
  A number: \<^verbatim>\<open>NaN\<close>, an infinity, or a finite value. The quotient \<^verbatim>\<open>a / b\<close> of two
  integers is \<^verbatim>\<open>NaN\<close> for \<open>0 / 0\<close> and an infinity for any other division by zero.
\<close>

datatype js_number = NaN | PosInfinity | NegInfinity | Finite real

definition js_divide :: "int \<Rightarrow> int \<Rightarrow> js_number" where
  "js_divide a b =
     (if b = 0 then (if a = 0 then NaN else if a > 0 then PosInfinity else NegInfinity)
      else Finite (real_of_int a / real_of_int b))"

text \<open>\<^verbatim>\<open>x || d\<close> for a number \<open>x\<close> of any kind: \<^verbatim>\<open>NaN\<close> and 0 give the default.\<close>

definition numberOr :: "js_number \<Rightarrow> real \<Rightarrow> js_number" where
  "numberOr x d = (if x = NaN \<or> x = Finite 0 then Finite d else x)"

text \<open>
  A value: \<^verbatim>\<open>undefined\<close>, \<^verbatim>\<open>null\<close>, a boolean, a number, a string, an array, or
  an object given by its properties. Its truthiness; \<^verbatim>\<open>v.key\<close> for a truthy \<open>v\<close>
  (every read below sits behind a truthiness test, so none throws) and a key that is no
  built-in property; \<^verbatim>\<open>Array.isArray\<close>; the elements a \<^verbatim>\<open>for ... of\<close> loop visits.
\<close>

datatype jsval =
  JUndefined | JNull | JBool bool | JNum js_number | JStr string
  | JArray "jsval list" | JObject "(string \<times> jsval) list"

fun truthy :: "jsval \<Rightarrow> bool" where
  "truthy JUndefined = False"
| "truthy JNull = False"
| "truthy (JBool b) = b"
| "truthy (JNum n) = (n \<noteq> NaN \<and> n \<noteq> Finite 0)"
| "truthy (JStr s) = (s \<noteq> [])"
| "truthy (JArray xs) = True"
| "truthy (JObject ps) = True"

fun getProp :: "jsval \<Rightarrow> string \<Rightarrow> jsval" where
  "getProp (JObject ps) key = (case map_of ps key of None \<Rightarrow> JUndefined | Some v \<Rightarrow> v)"
| "getProp v key = JUndefined"

fun isArray :: "jsval \<Rightarrow> bool" where
  "isArray (JArray xs) = True"
| "isArray v = False"

fun elements :: "jsval \<Rightarrow> jsval list" where
  "elements (JArray xs) = xs"
| "elements v = []"

text \<open>\<^verbatim>\<open>x || d\<close> for a number \<open>x\<close>: \<^verbatim>\<open>NaN\<close> and 0 give the default.\<close>

definition orDefault :: "int option \<Rightarrow> int \<Rightarrow> int" where
  "orDefault x d = (case x of None \<Rightarrow> d | Some n \<Rightarrow> if n = 0 then d else n)"

text \<open>\<^verbatim>\<open>xs[i]\<close> on an array of numbers: \<^verbatim>\<open>undefined\<close> past the end.\<close>

definition elemAt :: "int option list \<Rightarrow> nat \<Rightarrow> int option" where
  "elemAt xs i = (if i < length xs then xs ! i else None)"

section \<open>RTP packet builder (sender)\<close>

record RTPPacketBuilder =
  payloadType :: int
  ssrc :: int
  sampleRate :: int
  sequenceNumber :: int
  timestamp :: int

definition incrementTimestamp :: "RTPPacketBuilder \<Rightarrow> int \<Rightarrow> RTPPacketBuilder" where
  "incrementTimestamp this samples =
     this\<lparr>RTPPacketBuilder.timestamp :=
            js_and (RTPPacketBuilder.timestamp this + samples) 0xFFFFFFFF\<rparr>"

section \<open>SAP announcer (sender)\<close>

text \<open>Of the announcer, packet creation reads \<^verbatim>\<open>config.sourceIP\<close> and \<^verbatim>\<open>msgIdHash\<close>.\<close>

record SAPAnnouncer =
  sourceIP :: string
  msgIdHash :: int

definition SAPAnnouncer_packet ::
  "int \<Rightarrow> (nat \<Rightarrow> byte) \<Rightarrow> SAPAnnouncer \<Rightarrow> string \<Rightarrow> js_error + buffer" where
  "SAPAnnouncer_packet byte0 junk this sdpData =
     (let sdpBuffer = Buffer_from sdpData;
          payloadType = Buffer_from (''application/sdp'' @ [CHR 0x00]);
          packet = allocUnsafe junk (8 + length payloadType + length sdpBuffer);
          packet = setByte packet 0 (Some byte0);
          packet = setByte packet 1 (Some 0x00)
      in case writeUInt16BE packet (SAPAnnouncer.msgIdHash this) 2 of
           Inl e \<Rightarrow> Inl e
         | Inr packet \<Rightarrow>
             (let ipParts = map parseInt (js_split CHR ''.'' (SAPAnnouncer.sourceIP this));
                  packet = setByte packet 4 (elemAt ipParts 0);
                  packet = setByte packet 5 (elemAt ipParts 1);
                  packet = setByte packet 6 (elemAt ipParts 2);
                  packet = setByte packet 7 (elemAt ipParts 3);
                  packet = copy payloadType packet 8;
                  packet = copy sdpBuffer packet (8 + length payloadType)
              in Inr packet))"

text \<open>\<^verbatim>\<open>SAPAnnouncer.createSAPPacket(sdpData)\<close>: byte 0 is \<open>0x20\<close>.\<close>

definition SAPAnnouncer_createSAPPacket ::
  "(nat \<Rightarrow> byte) \<Rightarrow> SAPAnnouncer \<Rightarrow> string \<Rightarrow> js_error + buffer" where
  "SAPAnnouncer_createSAPPacket junk this sdpData = SAPAnnouncer_packet 0x20 junk this sdpData"

text \<open>The packet \<^verbatim>\<open>SAPAnnouncer.sendDeletion()\<close> builds, the same code with byte 0 \<open>0x24\<close>.\<close>

definition sendDeletion_packet ::
  "(nat \<Rightarrow> byte) \<Rightarrow> SAPAnnouncer \<Rightarrow> string \<Rightarrow> js_error + buffer" where
  "sendDeletion_packet junk this sdpData = SAPAnnouncer_packet 0x24 junk this sdpData"

text \<open>A dotted-quad IPv4 address: four decimal numbers with dots between them.\<close>

definition dottedQuad :: "nat \<Rightarrow> nat \<Rightarrow> nat \<Rightarrow> nat \<Rightarrow> string" where
  "dottedQuad a b c d = showNat a @ ''.'' @ showNat b @ ''.'' @ showNat c @ ''.'' @ showNat d"

text \<open>An announcer at 192.168.1.10, the start of a session description, and a text that
  begins with \<^verbatim>\<open>v=0\<close> and has \<^verbatim>\<open>sdp\<close> among its first eight bytes.\<close>

definition exampleAnnouncer :: SAPAnnouncer where
  "exampleAnnouncer = \<lparr>sourceIP = ''192.168.1.10'', msgIdHash = 0x1234\<rparr>"

definition exampleSDP :: string where
  "exampleSDP = ''v=0'' @ [CHR 0x0D, CHR 0x0A] @ ''o=- 1 1 IN IP4 192.168.1.10'' @ [CHR 0x0D, CHR 0x0A]
                @ ''s=Test'' @ [CHR 0x0D, CHR 0x0A]"

definition taggedSDP :: string where
  "taggedSDP = ''v=0'' @ [CHR 0x0A] @ ''sdp=1'' @ [CHR 0x0A]"

section \<open>SAP discovery (router)\<close>

text \<open>
  \<^verbatim>\<open>AES67Discovery.createSAPPacket(sdpData)\<close> of the router; \<open>None\<close> is \<^verbatim>\<open>null\<close>,
  also returned when the body throws.
\<close>

definition AES67Discovery_createSAPPacket ::
  "(nat \<Rightarrow> byte) \<Rightarrow> string \<Rightarrow> string \<Rightarrow> buffer option" where
  "AES67Discovery_createSAPPacket junk localIP sdpData =
     (if sdpData = [] then None
      else
        (let sdpBuffer = Buffer_from sdpData;
             packet = allocUnsafe junk (8 + 8 + length sdpBuffer);
             packet = setByte packet 0 (Some 0x20);
             packet = setByte packet 1 (Some 0x00)
         in case writeUInt16BE packet 0x0000 2 of
              Inl e \<Rightarrow> None
            | Inr packet \<Rightarrow>
                (let ipParts = map (\<lambda>p. Some (orDefault (parseInt p) 0)) (js_split CHR ''.'' localIP)
                 in if length ipParts \<noteq> 4 then None
                    else
                      (let packet = setByte packet 4 (elemAt ipParts 0);
                           packet = setByte packet 5 (elemAt ipParts 1);
                           packet = setByte packet 6 (elemAt ipParts 2);
                           packet = setByte packet 7 (elemAt ipParts 3);
                           packet = bufWrite packet ''application/sdp'' 8;
                           packet = copy sdpBuffer packet (8 + 8)
                       in Some packet))))"

text \<open>The scan for the null terminator in \<^verbatim>\<open>handleSAPMessage\<close>.\<close>

function skipToNull :: "buffer \<Rightarrow> nat \<Rightarrow> nat" where
  "skipToNull msg sdpOffset =
     (if sdpOffset < length msg \<and> byteAt msg sdpOffset \<noteq> 0
      then skipToNull msg (sdpOffset + 1)
      else sdpOffset)"
  by pat_completeness auto
termination
  by (relation "measure (\<lambda>(msg, sdpOffset). length msg - sdpOffset)") auto

declare skipToNull.simps [simp del]

record sapHeader =
  version :: int
  addressType :: int
  reserved :: int
  messageType :: int
  encrypted :: int
  compressed :: int
  authLength :: int
  msgIdHash :: int

text \<open>The arguments \<^verbatim>\<open>handleSAPMessage\<close> passes to \<^verbatim>\<open>parseSDP\<close>.\<close>

record parseSDP_call =
  sdpString :: string
  call_sourceIP :: string
  actualIP :: string
  call_messageType :: int

text \<open>
  \<^verbatim>\<open>handleSAPMessage(msg, rinfo)\<close>: the call of \<^verbatim>\<open>parseSDP\<close> it ends with, or
  \<open>None\<close> when it returns before (the datagram is dropped). The whole body is inside
  \<^verbatim>\<open>try\<close>, so a throw drops the datagram too.
\<close>

definition handleSAPMessage :: "buffer \<Rightarrow> string \<Rightarrow> parseSDP_call option" where
  "handleSAPMessage msg rinfo_address =
     (if length msg < 8 then None
      else
        case readUInt16BE msg 2 of
          Inl e \<Rightarrow> None
        | Inr hash \<Rightarrow>
            (let sapHeader =
                   \<lparr>sapHeader.version = js_and (js_shr (byteAt msg 0) 5) 0x7,
                    addressType = js_and (js_shr (byteAt msg 0) 4) 0x1,
                    reserved = js_and (js_shr (byteAt msg 0) 3) 0x1,
                    messageType = js_and (js_shr (byteAt msg 0) 2) 0x1,
                    encrypted = js_and (js_shr (byteAt msg 0) 1) 0x1,
                    compressed = js_and (byteAt msg 0) 0x1,
                    authLength = byteAt msg 1,
                    sapHeader.msgIdHash = hash\<rparr>
             in if sapHeader.version sapHeader \<noteq> 1 then None
                else if length msg < 8 then None
                else
                  (let sourceIP = showInt (byteAt msg 4) @ ''.'' @ showInt (byteAt msg 5) @ ''.''
                                  @ showInt (byteAt msg 6) @ ''.'' @ showInt (byteAt msg 7);
                       sdpOffset = 8 + nat (authLength sapHeader * 4)
                   in if sdpOffset \<ge> length msg then None
                      else
                        (let sdpOffset = skipToNull msg sdpOffset;
                             sdpOffset = sdpOffset + 1
                         in if sdpOffset \<ge> length msg then None
                            else
                              (let sdpOffset =
                                     (if sdpOffset + 8 < length msg
                                      then (let payloadType =
                                                  toString (slice msg (int sdpOffset)
                                                              (Some (int sdpOffset + 8)))
                                            in if sublist ''sdp'' payloadType
                                               then sdpOffset + 8 else sdpOffset)
                                      else sdpOffset)
                               in if sdpOffset \<ge> length msg then None
                                  else
                                    (let sdpData = toString (slice msg (int sdpOffset) None)
                                     in if sdpData \<noteq> [] \<and> prefix ''v=0'' sdpData
                                        then Some \<lparr>sdpString = sdpData,
                                                   call_sourceIP = sourceIP,
                                                   actualIP = rinfo_address,
                                                   call_messageType = messageType sapHeader\<rparr>
                                        else None))))))"

text \<open>A datagram announced by the sender and handed to the router's listener.\<close>

definition announceThenDecode ::
  "(nat \<Rightarrow> byte) \<Rightarrow> SAPAnnouncer \<Rightarrow> string \<Rightarrow> string \<Rightarrow> js_error + parseSDP_call option" where
  "announceThenDecode junk this sdpData rinfo_address =
     (case SAPAnnouncer_createSAPPacket junk this sdpData of
        Inl e \<Rightarrow> Inl e
      | Inr packet \<Rightarrow> Inr (handleSAPMessage packet rinfo_address))"

section \<open>SDP extraction (router)\<close>

text \<open>
  The three extractors take the media object that \<^verbatim>\<open>sdp.parse\<close> returned. They read
  its property \<^verbatim>\<open>rtpmap\<close> and, of each entry, \<^verbatim>\<open>channels\<close>, \<^verbatim>\<open>rate\<close> and
  \<^verbatim>\<open>name\<close>. The language's \<^verbatim>\<open>parseInt\<close> on a value is the parameter
  \<open>parseIntOf\<close>. A \<^verbatim>\<open>catch\<close> around each body returns the default; no read here throws.
\<close>

definition AES67_SAMPLE_RATE :: real where
  "AES67_SAMPLE_RATE = 48000"

fun extractChannels_loop :: "(jsval \<Rightarrow> js_number) \<Rightarrow> jsval list \<Rightarrow> js_number option" where
  "extractChannels_loop parseIntOf [] = None"
| "extractChannels_loop parseIntOf (entry # rest) =
     (if truthy entry \<and> truthy (getProp entry ''channels'')
      then Some (numberOr (parseIntOf (getProp entry ''channels'')) 2)
      else extractChannels_loop parseIntOf rest)"

definition extractChannels :: "(jsval \<Rightarrow> js_number) \<Rightarrow> jsval \<Rightarrow> js_number" where
  "extractChannels parseIntOf media =
     (if truthy media \<and> truthy (getProp media ''rtpmap'') \<and> isArray (getProp media ''rtpmap'')
      then (case extractChannels_loop parseIntOf (elements (getProp media ''rtpmap'')) of
              None \<Rightarrow> Finite 2
            | Some n \<Rightarrow> n)
      else Finite 2)"

fun extractSampleRate_loop :: "(jsval \<Rightarrow> js_number) \<Rightarrow> jsval list \<Rightarrow> js_number option" where
  "extractSampleRate_loop parseIntOf [] = None"
| "extractSampleRate_loop parseIntOf (entry # rest) =
     (if truthy entry \<and> truthy (getProp entry ''rate'')
      then Some (numberOr (parseIntOf (getProp entry ''rate'')) AES67_SAMPLE_RATE)
      else extractSampleRate_loop parseIntOf rest)"

definition extractSampleRate :: "(jsval \<Rightarrow> js_number) \<Rightarrow> jsval \<Rightarrow> js_number" where
  "extractSampleRate parseIntOf media =
     (if truthy media \<and> truthy (getProp media ''rtpmap'') \<and> isArray (getProp media ''rtpmap'')
      then (case extractSampleRate_loop parseIntOf (elements (getProp media ''rtpmap'')) of
              None \<Rightarrow> Finite AES67_SAMPLE_RATE
            | Some n \<Rightarrow> n)
      else Finite AES67_SAMPLE_RATE)"

fun extractEncoding_loop :: "jsval list \<Rightarrow> jsval option" where
  "extractEncoding_loop [] = None"
| "extractEncoding_loop (entry # rest) =
     (if truthy entry \<and> truthy (getProp entry ''name'')
      then Some (getProp entry ''name'')
      else extractEncoding_loop rest)"

definition extractEncoding :: "jsval \<Rightarrow> jsval" where
  "extractEncoding media =
     (if truthy media \<and> truthy (getProp media ''rtpmap'') \<and> isArray (getProp media ''rtpmap'')
      then (case extractEncoding_loop (elements (getProp media ''rtpmap'')) of
              None \<Rightarrow> JStr ''L24''
            | Some v \<Rightarrow> v)
      else JStr ''L24'')"

text \<open>
  The media section of a parsed session description, with the property names of the
  sdp-transform schema as this repository uses them: \<^verbatim>\<open>createSDP\<close> of the sender
  writes \<^verbatim>\<open>type\<close>, \<^verbatim>\<open>port\<close>, \<^verbatim>\<open>protocol\<close>, \<^verbatim>\<open>payloads\<close>, \<^verbatim>\<open>rtp\<close>,
  \<^verbatim>\<open>ptime\<close>, \<^verbatim>\<open>fmtp\<close>, \<^verbatim>\<open>tsRefClk\<close> and \<^verbatim>\<open>mediaclk\<close>, and
  \<^verbatim>\<open>parseSDP\<close> of the router reads \<^verbatim>\<open>connection.ip\<close> as well. An
  \<^verbatim>\<open>a=rtpmap\<close> line is an entry of \<^verbatim>\<open>rtp\<close> with the properties \<^verbatim>\<open>payload\<close>,
  \<^verbatim>\<open>codec\<close>, \<^verbatim>\<open>rate\<close> and \<^verbatim>\<open>encoding\<close> (the channel count). A property that
  is absent is \<^verbatim>\<open>undefined\<close>.
\<close>

record rtp_line =
  line_payload :: jsval
  line_codec :: jsval
  line_rate :: jsval
  line_encoding :: jsval

record sdp_media =
  m_type :: jsval
  m_port :: jsval
  m_protocol :: jsval
  m_payloads :: jsval
  m_rtp :: "rtp_line list"
  m_fmtp :: "jsval list"
  m_ptime :: jsval
  m_connection_ip :: jsval
  m_mediaclk :: jsval
  m_tsRefClk :: jsval

definition rtpObject :: "rtp_line \<Rightarrow> jsval" where
  "rtpObject l =
     JObject [(''payload'', line_payload l), (''codec'', line_codec l),
              (''rate'', line_rate l), (''encoding'', line_encoding l)]"

definition mediaObject :: "sdp_media \<Rightarrow> jsval" where
  "mediaObject m =
     JObject [(''type'', m_type m), (''port'', m_port m), (''protocol'', m_protocol m),
              (''payloads'', m_payloads m), (''rtp'', JArray (map rtpObject (m_rtp m))),
              (''fmtp'', JArray (m_fmtp m)), (''ptime'', m_ptime m),
              (''connection'', JObject [(''version'', JNum (Finite 4)), (''ip'', m_connection_ip m)]),
              (''mediaclk'', m_mediaclk m), (''tsRefClk'', m_tsRefClk m)]"

text \<open>
  The media section of \<^verbatim>\<open>m=audio 5004 RTP/AVP 96\<close> with
  \<^verbatim>\<open>a=rtpmap:96 L16/44100/8\<close>, and an object that does have an \<^verbatim>\<open>rtpmap\<close> array.
\<close>

definition l16Section :: sdp_media where
  "l16Section =
     \<lparr>m_type = JStr ''audio'', m_port = JNum (Finite 5004), m_protocol = JStr ''RTP/AVP'',
      m_payloads = JNum (Finite 96),
      m_rtp = [\<lparr>line_payload = JNum (Finite 96), line_codec = JStr ''L16'',
                line_rate = JNum (Finite 44100), line_encoding = JNum (Finite 8)\<rparr>],
      m_fmtp = [], m_ptime = JUndefined, m_connection_ip = JStr ''239.69.1.1'',
      m_mediaclk = JUndefined, m_tsRefClk = JUndefined\<rparr>"

text \<open>One instance of the parameter: a \<^verbatim>\<open>parseInt\<close> that never finds a number.\<close>

definition parseIntNaN :: "jsval \<Rightarrow> js_number" where
  "parseIntNaN v = NaN"

definition rtpmapObject :: jsval where
  "rtpmapObject =
     JObject [(''rtpmap'', JArray [JNull, JObject [(''name'', JStr ''L16''), (''rate'', JStr ''44100'')]])]"

section \<open>Stream registry (router)\<close>

text \<open>
  The device and stream objects; the stream's \<^verbatim>\<open>id\<close> is \<open>stream_id\<close> here. The
  encoding holds whatever \<^verbatim>\<open>extractEncoding\<close> returned.
\<close>

record device =
  ip :: string
  name :: string
  streams :: "string list"

record streamInfo =
  stream_id :: string
  name :: string
  description :: string
  sourceIP :: string
  destIP :: string
  port :: int
  channels :: int
  sampleRate :: int
  encoding :: jsval
  ptime :: int
  mediaClk :: string
  isMulticast :: bool
  sdp :: string
  lastSeen :: int
  status :: string

record node_msg =
  topic :: string
  payload :: streamInfo

text \<open>
  The two maps of the discovery object, the module-level \<^verbatim>\<open>globalStreamRegistry\<close>,
  and the messages sent on the node's first output. A \<^verbatim>\<open>Map\<close> is a list of entries
  in insertion order; \<^const>\<open>AList.update\<close> is \<^verbatim>\<open>Map.set\<close>. Log lines and the node's
  status badge are not modelled.
\<close>

record AES67Discovery =
  streams :: "(string \<times> streamInfo) list"
  devices :: "(string \<times> device) list"
  globalStreamRegistry :: "(string \<times> streamInfo) list"
  sent :: "node_msg list"

definition streamKeyOf :: "streamInfo \<Rightarrow> string" where
  "streamKeyOf streamInfo = streamInfo.sourceIP streamInfo @ '':'' @ showInt (port streamInfo)"

text \<open>
  \<^verbatim>\<open>registerStream(streamInfo)\<close>: the discovery object after the call and the value
  returned. The function has no \<^verbatim>\<open>return\<close> with a value, so that is
  \<^verbatim>\<open>undefined\<close> on every path.
\<close>

definition registerStream :: "AES67Discovery \<Rightarrow> streamInfo \<Rightarrow> AES67Discovery \<times> jsval" where
  "registerStream this streamInfo =
     (if streamInfo.sourceIP streamInfo = [] \<or> port streamInfo = 0 then (this, JUndefined)
      else
        (let streamKey = streamKeyOf streamInfo;
             isNew = (map_of (AES67Discovery.streams this) streamKey = None);
             this = this\<lparr>AES67Discovery.streams :=
                           AList.update streamKey streamInfo (AES67Discovery.streams this),
                         globalStreamRegistry :=
                           AList.update streamKey streamInfo (globalStreamRegistry this)\<rparr>;
             deviceKey = streamInfo.sourceIP streamInfo;
             this = (if map_of (devices this) deviceKey = None
                     then this\<lparr>devices :=
                                  AList.update deviceKey
                                    \<lparr>ip = streamInfo.sourceIP streamInfo,
                                     device.name = streamInfo.sourceIP streamInfo,
                                     device.streams = []\<rparr>
                                    (devices this)\<rparr>
                     else this);
             this = (case map_of (devices this) deviceKey of
                       None \<Rightarrow> this
                     | Some device \<Rightarrow>
                         if streamKey \<notin> set (device.streams device)
                         then this\<lparr>devices :=
                                      AList.update deviceKey
                                        (device\<lparr>device.streams := device.streams device @ [streamKey]\<rparr>)
                                        (devices this)\<rparr>
                         else this);
             this = (if isNew \<and> status streamInfo = ''active''
                     then this\<lparr>sent := sent this
                                  @ [\<lparr>topic = ''stream/discovered'', payload = streamInfo\<rparr>]\<rparr>
                     else this)
         in (this, JUndefined)))"

text \<open>The constructor: empty maps, nothing sent.\<close>

definition new_AES67Discovery :: AES67Discovery where
  "new_AES67Discovery = \<lparr>streams = [], devices = [], globalStreamRegistry = [], sent = []\<rparr>"

text \<open>
  A descriptor as \<^verbatim>\<open>parseSDP\<close> builds it for a withdrawn session whose media line has
  no usable port (\<^verbatim>\<open>media.port || 0\<close>), and two announcements of one stream that
  differ in the channel count.
\<close>

definition portlessStream :: streamInfo where
  "portlessStream =
     \<lparr>stream_id = ''1'', name = ''Test'', description = [], sourceIP = ''192.168.1.10'',
      destIP = ''239.69.1.1'', port = 0, channels = 2, sampleRate = 48000,
      encoding = JStr ''L24'', ptime = 1,
      mediaClk = ''ptp=IEEE1588-2008:00-00-00-00-00-00-00-00:0'', isMulticast = True,
      sdp = ''v=0'', lastSeen = 0, status = ''deleted''\<rparr>"

definition firstAnnouncement :: streamInfo where
  "firstAnnouncement = portlessStream\<lparr>port := 5004, status := ''active''\<rparr>"

definition secondAnnouncement :: streamInfo where
  "secondAnnouncement = firstAnnouncement\<lparr>channels := 8, lastSeen := 30000\<rparr>"

text \<open>The entries of a \<^verbatim>\<open>Map\<close> stored under a key.\<close>

definition entriesFor :: "'k \<Rightarrow> ('k \<times> 'v) list \<Rightarrow> ('k \<times> 'v) list" where
  "entriesFor k m = filter (\<lambda>e. fst e = k) m"

section \<open>Audio buffer manager (receiver)\<close>

record AudioBufferManager =
  sampleRate :: int
  channels :: int
  bytesPerSample :: int
  buffers :: "buffer list"
  maxBufferSize :: real

definition new_AudioBufferManager :: "int \<Rightarrow> int \<Rightarrow> int \<Rightarrow> AudioBufferManager" where
  "new_AudioBufferManager sampleRate' channels' bytesPerSample' =
     \<lparr>sampleRate = sampleRate', channels = channels', bytesPerSample = bytesPerSample',
      buffers = [],
      maxBufferSize = real_of_int (sampleRate' * channels' * bytesPerSample') * 0.1\<rparr>"

text \<open>\<^verbatim>\<open>this.buffers.reduce((sum, buf) => sum + buf.length, 0)\<close>\<close>

definition totalSize :: "buffer list \<Rightarrow> int" where
  "totalSize bufs = foldl (\<lambda>sum buf. sum + int (length buf)) 0 bufs"

text \<open>The trimming loop: \<^verbatim>\<open>shift()\<close> while the list is not empty and over the limit.\<close>

fun trimBuffers :: "real \<Rightarrow> buffer list \<Rightarrow> buffer list" where
  "trimBuffers limit [] = []"
| "trimBuffers limit (b # bs) =
     (if real_of_int (totalSize (b # bs)) > limit then trimBuffers limit bs else b # bs)"

definition addAudioData :: "AudioBufferManager \<Rightarrow> buffer \<Rightarrow> AudioBufferManager" where
  "addAudioData this data =
     (let this = this\<lparr>buffers := buffers this @ [data]\<rparr>;
          totalSize' = totalSize (buffers this)
      in if real_of_int totalSize' > maxBufferSize this
         then this\<lparr>buffers := trimBuffers (maxBufferSize this * 0.8) (buffers this)\<rparr>
         else this)"

text \<open>\<^verbatim>\<open>getBufferedAmount()\<close>\<close>

definition getBufferedAmount :: "AudioBufferManager \<Rightarrow> int" where
  "getBufferedAmount this = totalSize (buffers this)"

text \<open>A sequence of appends, oldest first.\<close>

fun addAll :: "AudioBufferManager \<Rightarrow> buffer list \<Rightarrow> AudioBufferManager" where
  "addAll this [] = this"
| "addAll this (d # ds) = addAll (addAudioData this d) ds"

section \<open>RTP packet parser (receiver)\<close>

record rtp_header =
  version :: int
  padding :: int
  extension :: int
  csrcCount :: int
  marker :: int
  payloadType :: int
  sequenceNumber :: int
  timestamp :: int
  ssrc :: int

record rtp_packet =
  header :: rtp_header
  payload :: buffer

text \<open>\<^verbatim>\<open>lastSequence\<close> is \<^verbatim>\<open>null\<close> (\<open>None\<close>) until the first packet.\<close>

record RTPPacketParser =
  lastSequence :: "int option"
  packetsLost :: int
  packetsReceived :: int

text \<open>The constructor, and \<^verbatim>\<open>reset()\<close>.\<close>

definition new_RTPPacketParser :: RTPPacketParser where
  "new_RTPPacketParser = \<lparr>lastSequence = None, packetsLost = 0, packetsReceived = 0\<rparr>"

definition reset :: "RTPPacketParser \<Rightarrow> RTPPacketParser" where
  "reset this = this\<lparr>lastSequence := None, packetsLost := 0, packetsReceived := 0\<rparr>"

text \<open>The header object built from the first twelve bytes.\<close>

definition parseHeader :: "buffer \<Rightarrow> js_error + rtp_header" where
  "parseHeader buffer =
     (case readUInt16BE buffer 2 of Inl e \<Rightarrow> Inl e | Inr sq \<Rightarrow>
      case readUInt32BE buffer 4 of Inl e \<Rightarrow> Inl e | Inr ts \<Rightarrow>
      case readUInt32BE buffer 8 of Inl e \<Rightarrow> Inl e | Inr ss \<Rightarrow>
        Inr \<lparr>version = js_and (js_shr (byteAt buffer 0) 6) 0x3,
             padding = js_and (js_shr (byteAt buffer 0) 5) 0x1,
             extension = js_and (js_shr (byteAt buffer 0) 4) 0x1,
             csrcCount = js_and (byteAt buffer 0) 0xF,
             marker = js_and (js_shr (byteAt buffer 1) 7) 0x1,
             payloadType = js_and (byteAt buffer 1) 0x7F,
             sequenceNumber = sq,
             timestamp = ts,
             ssrc = ss\<rparr>)"

text \<open>The "check for lost packets" block, with the two updates that follow it.\<close>

definition trackSequence :: "RTPPacketParser \<Rightarrow> int \<Rightarrow> RTPPacketParser" where
  "trackSequence this sq =
     (let this1 =
        (case lastSequence this of
           None \<Rightarrow> this
         | Some l \<Rightarrow>
             (let expected = js_and (l + 1) 0xFFFF
              in if sq \<noteq> expected
                 then (let lost = js_and (sq - expected + 0x10000) 0xFFFF
                       in this\<lparr>packetsLost := packetsLost this + lost\<rparr>)
                 else this))
      in this1\<lparr>lastSequence := Some sq, packetsReceived := packetsReceived this1 + 1\<rparr>)"

text \<open>The header length, extended when the extension bit is set and four more bytes are there.\<close>

definition headerLengthOf :: "buffer \<Rightarrow> rtp_header \<Rightarrow> js_error + int" where
  "headerLengthOf buffer hdr =
     (let headerLength = 12 + csrcCount hdr * 4
      in if extension hdr \<noteq> 0
         then (if int (length buffer) \<ge> headerLength + 4
               then (case readUInt16BE buffer (nat (headerLength + 2)) of
                       Inl e \<Rightarrow> Inl e
                     | Inr w \<Rightarrow> (let extLength = w * 4 in Inr (headerLength + (4 + extLength))))
               else Inr headerLength)
         else Inr headerLength)"

text \<open>The payload: what follows the header, less the padding when the padding bit is set.\<close>

definition extractPayload :: "buffer \<Rightarrow> rtp_header \<Rightarrow> int \<Rightarrow> buffer" where
  "extractPayload buffer hdr headerLength =
     (let payload = slice buffer headerLength None
      in if padding hdr \<noteq> 0 \<and> length payload > 0
         then (let paddingLength = byteAt payload (length payload - 1)
               in slice payload 0 (Some (- paddingLength)))
         else payload)"

text \<open>
  \<^verbatim>\<open>parsePacket(buffer)\<close>: the parser after the call, and either the exception thrown
  (\<open>Inl\<close>) or the value returned, \<open>None\<close> for \<^verbatim>\<open>null\<close>.
\<close>

definition parsePacket ::
  "RTPPacketParser \<Rightarrow> buffer \<Rightarrow> RTPPacketParser \<times> (js_error + rtp_packet option)" where
  "parsePacket this buffer =
     (if length buffer < 12 then (this, Inr None)
      else
        case parseHeader buffer of
          Inl e \<Rightarrow> (this, Inl e)
        | Inr hdr \<Rightarrow>
            (let this' = trackSequence this (sequenceNumber hdr)
             in case headerLengthOf buffer hdr of
                  Inl e \<Rightarrow> (this', Inl e)
                | Inr headerLength \<Rightarrow>
                    (this', Inr (Some \<lparr>header = hdr,
                                       payload = extractPayload buffer hdr headerLength\<rparr>))))"

record rtp_stats =
  stats_packetsReceived :: int
  stats_packetsLost :: int
  lossRate :: js_number

definition getStats :: "RTPPacketParser \<Rightarrow> rtp_stats" where
  "getStats this =
     \<lparr>stats_packetsReceived = packetsReceived this,
      stats_packetsLost = packetsLost this,
      lossRate = (if packetsReceived this > 0
                  then js_divide (packetsLost this) (packetsReceived this + packetsLost this)
                  else Finite 0)\<rparr>"

text \<open>The parser states a receiver can be in: fresh, after a packet, after a reset.\<close>

inductive reachable :: "RTPPacketParser \<Rightarrow> bool" where
  fresh: "reachable new_RTPPacketParser"
| parsed: "reachable p \<Longrightarrow> reachable (fst (parsePacket p buf))"
| was_reset: "reachable p \<Longrightarrow> reachable (reset p)"

text \<open>Decoding a list of datagrams in order, keeping the parser.\<close>

fun parseAll :: "RTPPacketParser \<Rightarrow> buffer list \<Rightarrow> RTPPacketParser" where
  "parseAll p [] = p"
| "parseAll p (b # bs) = parseAll (fst (parsePacket p b)) bs"

text \<open>A twelve-byte RTP packet (version 2, payload type 96) with the given sequence number.\<close>

definition seqPacket :: "int \<Rightarrow> buffer" where
  "seqPacket n = [0x80, 0x60, word_of_int (n div 256), word_of_int n, 0, 0, 0, 0, 0, 0, 0, 1]"

section \<open>Properties of the RTP packet parser\<close>

lemma js_and_FFFF: "js_and x 0xFFFF = x mod 65536"
proof -
  have m: "(0xFFFF::int) = mask 16" by (simp add: mask_eq_exp_minus_1)
  have "signed_take_bit 31 (0xFFFF::int) = 0xFFFF" by (simp add: signed_take_bit_eq_take_bit_shift take_bit_eq_mod)
  then have "js_and x 0xFFFF = take_bit 16 (signed_take_bit 31 x)"
    unfolding js_and_def ToInt32_def by (simp only: m take_bit_eq_mask)
  also have "\<dots> = take_bit 16 x" by (simp add: take_bit_signed_take_bit)
  finally show ?thesis by (simp add: take_bit_eq_mod)
qed

lemma js_and_small_nonneg: "0 \<le> js_and x 0xF"
proof -
  have "signed_take_bit 31 (0xF::int) = 0xF" by (simp add: signed_take_bit_eq_take_bit_shift take_bit_eq_mod)
  then show ?thesis unfolding js_and_def ToInt32_def by simp
qed

lemma parseHeader_ok:
  assumes "12 \<le> length buffer"
  shows "\<exists>hdr. parseHeader buffer = Inr hdr \<and> sequenceNumber hdr = byteAt buffer 2 * 256 + byteAt buffer 3
     \<and> csrcCount hdr = js_and (byteAt buffer 0) 0xF"
  using assms by (simp add: parseHeader_def readUInt16BE_def readUInt32BE_def)

lemma headerLengthOf_ok:
  assumes "0 \<le> csrcCount hdr"
  shows "\<exists>n. headerLengthOf buffer hdr = Inr n"
  using assms by (auto simp add: headerLengthOf_def readUInt16BE_def Let_def)

lemma parsePacket_short: "length buffer < 12 \<Longrightarrow> parsePacket this buffer = (this, Inr None)"
  by (simp add: parsePacket_def)

lemma parsePacket_long:
  assumes "12 \<le> length buffer"
  shows "\<exists>hdr n. parseHeader buffer = Inr hdr \<and> headerLengthOf buffer hdr = Inr n \<and>
     parsePacket this buffer =
       (trackSequence this (byteAt buffer 2 * 256 + byteAt buffer 3),
        Inr (Some \<lparr>header = hdr, payload = extractPayload buffer hdr n\<rparr>))"
proof -
  from parseHeader_ok [OF assms] obtain hdr where
    h: "parseHeader buffer = Inr hdr" "sequenceNumber hdr = byteAt buffer 2 * 256 + byteAt buffer 3"
       "csrcCount hdr = js_and (byteAt buffer 0) 0xF" by blast
  have "0 \<le> csrcCount hdr" using h(3) js_and_small_nonneg by simp
  from headerLengthOf_ok [OF this] obtain n where n: "headerLengthOf buffer hdr = Inr n" by blast
  show ?thesis using assms h n by (simp add: parsePacket_def Let_def)
qed

lemma parsePacket_never_throws: "\<exists>r. snd (parsePacket this buffer) = Inr r"
proof (cases "length buffer < 12")
  case True
  then show ?thesis by (simp add: parsePacket_short)
next
  case False
  then have "12 \<le> length buffer" by simp
  from parsePacket_long [OF this, of this] show ?thesis by auto
qed

lemma trackSequence_fields:
  "lastSequence (trackSequence this sq) = Some sq"
  "packetsReceived (trackSequence this sq) = packetsReceived this + 1"
  "lastSequence this = None \<Longrightarrow> packetsLost (trackSequence this sq) = packetsLost this"
  "lastSequence this = Some l \<Longrightarrow>
     packetsLost (trackSequence this sq) = packetsLost this + (sq - (l + 1) mod 65536 + 65536) mod 65536"
  by (simp_all add: trackSequence_def Let_def js_and_FFFF split: option.splits)

lemma trackSequence_nonneg:
  assumes "0 \<le> packetsLost this" "0 \<le> packetsReceived this"
  shows "0 \<le> packetsLost (trackSequence this sq) \<and> 0 \<le> packetsReceived (trackSequence this sq)"
proof (cases "lastSequence this")
  case None
  then show ?thesis using assms by (simp add: trackSequence_fields)
next
  case (Some l)
  have "0 \<le> (sq - (l + 1) mod 65536 + 65536) mod 65536" by simp
  then show ?thesis using assms Some by (simp add: trackSequence_fields)
qed

lemma parsePacket_state:
  "fst (parsePacket this buffer) = this \<or> (\<exists>sq. fst (parsePacket this buffer) = trackSequence this sq)"
proof (cases "length buffer < 12")
  case True
  then show ?thesis by (simp add: parsePacket_short)
next
  case False
  then have "12 \<le> length buffer" by simp
  from parsePacket_long [OF this, of this] show ?thesis by auto
qed

lemma reachable_nonneg: "reachable p \<Longrightarrow> 0 \<le> packetsLost p \<and> 0 \<le> packetsReceived p"
proof (induction rule: reachable.induct)
  case fresh
  then show ?case by (simp add: new_RTPPacketParser_def)
next
  case (parsed p buf)
  then show ?case using parsePacket_state [of p buf] trackSequence_nonneg by metis
next
  case (was_reset p)
  then show ?case by (simp add: reset_def)
qed

text \<open>
  C4: the first decoded packet sets \<^verbatim>\<open>lastSequence\<close> and adds no loss; every later
  decode adds \<open>(actual - expected + 65536) mod 65536\<close> to \<^verbatim>\<open>packetsLost\<close>, where
  \<open>expected = (lastSequence + 1) mod 65536\<close>, and sets \<^verbatim>\<open>lastSequence\<close> to the
  actual sequence number. On a fresh parser the sequence numbers 1, 2, 4, 5 give
  \<^verbatim>\<open>packetsLost = 1\<close>, \<^verbatim>\<open>packetsReceived = 4\<close> and \<^verbatim>\<open>lossRate = 0.2\<close>.
\<close>

theorem parsePacket_loss_accounting:
  assumes "12 \<le> length buffer"
    and "sq = byteAt buffer 2 * 256 + byteAt buffer 3"
    and "this' = fst (parsePacket this buffer)"
  shows "lastSequence this' = Some sq
    \<and> packetsReceived this' = packetsReceived this + 1
    \<and> (lastSequence this = None \<longrightarrow> packetsLost this' = packetsLost this)
    \<and> (\<forall>l. lastSequence this = Some l \<longrightarrow>
          packetsLost this' = packetsLost this + (sq - (l + 1) mod 65536 + 65536) mod 65536)
    \<and> packetsLost (parseAll new_RTPPacketParser (map seqPacket [1, 2, 4, 5])) = 1
    \<and> packetsReceived (parseAll new_RTPPacketParser (map seqPacket [1, 2, 4, 5])) = 4
    \<and> lossRate (getStats (parseAll new_RTPPacketParser (map seqPacket [1, 2, 4, 5]))) = Finite 0.2"
proof -
  from parsePacket_long [OF assms(1), of this]
  have st: "this' = trackSequence this sq" using assms(2,3) by auto
  have ex: "parseAll new_RTPPacketParser (map seqPacket [1, 2, 4, 5])
      = \<lparr>lastSequence = Some 5, packetsLost = 1, packetsReceived = 4\<rparr>"
    by code_simp
  have "lossRate (getStats \<lparr>lastSequence = Some 5, packetsLost = 1, packetsReceived = 4\<rparr>) = Finite 0.2"
    by (simp add: getStats_def js_divide_def)
  then show ?thesis using st ex by (simp add: trackSequence_fields)
qed

theorem parsePacket_loss_accounting_witness:
  "12 \<le> length (seqPacket 4)
   \<and> packetsLost (fst (parsePacket \<lparr>lastSequence = Some 2, packetsLost = 0, packetsReceived = 2\<rparr> (seqPacket 4))) = 1
   \<and> lastSequence (fst (parsePacket \<lparr>lastSequence = Some 2, packetsLost = 0, packetsReceived = 2\<rparr> (seqPacket 4))) = Some 4"
proof -
  have l: "12 \<le> length (seqPacket 4)" by (simp add: seqPacket_def)
  have s: "(4::int) = byteAt (seqPacket 4) 2 * 256 + byteAt (seqPacket 4) 3"
    by (simp add: seqPacket_def byteAt_def)
  show ?thesis
    using l parsePacket_loss_accounting [OF l s refl, of "\<lparr>lastSequence = Some 2, packetsLost = 0, packetsReceived = 2\<rparr>"]
    by simp
qed

text \<open>
  C10: in every reachable parser state \<^verbatim>\<open>getStats()\<close> returns a loss rate that is a
  finite number between 0 and 1: it is 0 when no packet was received, where the division
  is not evaluated (on a fresh parser it would be \<open>0 / 0\<close>, not a number), and
  \<open>lost / (received + lost)\<close> otherwise, with a divisor that is not zero.
\<close>

theorem getStats_lossRate_bounds:
  assumes "reachable p"
  shows "(\<exists>r. lossRate (getStats p) = Finite r \<and> 0 \<le> r \<and> r \<le> 1)
    \<and> (packetsReceived p = 0 \<longrightarrow> lossRate (getStats p) = Finite 0)
    \<and> (packetsReceived p > 0 \<longrightarrow>
         packetsReceived p + packetsLost p \<noteq> 0 \<and>
         lossRate (getStats p)
           = Finite (real_of_int (packetsLost p) / real_of_int (packetsReceived p + packetsLost p)))
    \<and> js_divide (packetsLost new_RTPPacketParser)
          (packetsReceived new_RTPPacketParser + packetsLost new_RTPPacketParser) = NaN
    \<and> lossRate (getStats new_RTPPacketParser) = Finite 0"
proof -
  from reachable_nonneg [OF assms] have nn: "0 \<le> packetsLost p" "0 \<le> packetsReceived p" by simp_all
  have fresh_div: "js_divide (packetsLost new_RTPPacketParser)
          (packetsReceived new_RTPPacketParser + packetsLost new_RTPPacketParser) = NaN"
    by (simp add: new_RTPPacketParser_def js_divide_def)
  have fresh_rate: "lossRate (getStats new_RTPPacketParser) = Finite 0"
    by (simp add: new_RTPPacketParser_def getStats_def)
  show ?thesis
  proof (cases "packetsReceived p > 0")
    case True
    define q where "q = real_of_int (packetsLost p) / real_of_int (packetsReceived p + packetsLost p)"
    have d: "packetsReceived p + packetsLost p \<noteq> 0" using nn True by simp
    have le: "q \<le> 1" unfolding q_def using nn True by (simp add: divide_le_eq)
    have ge: "0 \<le> q" unfolding q_def using nn True by simp
    have v: "lossRate (getStats p) = Finite q"
      unfolding q_def using True d by (simp add: getStats_def js_divide_def)
    have "\<exists>r. lossRate (getStats p) = Finite r \<and> 0 \<le> r \<and> r \<le> 1" using v ge le by blast
    then show ?thesis using True d v fresh_div fresh_rate unfolding q_def by simp
  next
    case False
    then have z: "lossRate (getStats p) = Finite 0" by (simp add: getStats_def)
    then have "\<exists>r. lossRate (getStats p) = Finite r \<and> 0 \<le> r \<and> r \<le> 1" by simp
    then show ?thesis using False z fresh_div fresh_rate by simp
  qed
qed

theorem getStats_lossRate_bounds_witness:
  "reachable new_RTPPacketParser \<and> packetsReceived new_RTPPacketParser = 0
   \<and> lossRate (getStats new_RTPPacketParser) = Finite 0
   \<and> reachable (fst (parsePacket new_RTPPacketParser (seqPacket 1)))
   \<and> lossRate (getStats (fst (parsePacket new_RTPPacketParser (seqPacket 1)))) = Finite 0"
proof -
  have r1: "reachable (fst (parsePacket new_RTPPacketParser (seqPacket 1)))"
    by (rule parsed) (rule fresh)
  have p1: "fst (parsePacket new_RTPPacketParser (seqPacket 1))
      = \<lparr>lastSequence = Some 1, packetsLost = 0, packetsReceived = 1\<rparr>"
    by code_simp
  have z: "packetsReceived new_RTPPacketParser = 0" by (simp add: new_RTPPacketParser_def)
  have a: "lossRate (getStats new_RTPPacketParser) = Finite 0"
    using getStats_lossRate_bounds [OF fresh] z by simp
  have b: "lossRate (getStats (fst (parsePacket new_RTPPacketParser (seqPacket 1)))) = Finite 0"
    using getStats_lossRate_bounds [OF r1] by (simp add: p1)
  show ?thesis using fresh r1 z a b by simp
qed

text \<open>
  The parser never throws: every read sits behind a length check. A datagram shorter
  than twelve bytes gives \<^verbatim>\<open>null\<close> (\<open>parsePacket_short\<close>).
\<close>

text \<open>
  C2: a header length beyond the end of the buffer should make the decode fail with
  \<^verbatim>\<open>null\<close>. The parser has no such check: a twelve-byte datagram that announces one
  CSRC entry (header length 16) is counted and returned with an empty payload.
\<close>

theorem parsePacket_header_overrun:
  "parsePacket new_RTPPacketParser [0x81, 0x60, 0, 1, 0, 0, 0, 0, 0, 0, 0, 1]
     = (\<lparr>lastSequence = Some 1, packetsLost = 0, packetsReceived = 1\<rparr>,
        Inr (Some \<lparr>header = \<lparr>version = 2, padding = 0, extension = 0, csrcCount = 1, marker = 0,
                              payloadType = 96, sequenceNumber = 1, timestamp = 0, ssrc = 1\<rparr>,
                   payload = []\<rparr>))"
  by code_simp

lemma slice_drop_last:
  assumes "raw \<noteq> []"
  shows "slice raw 0 (Some (- byteAt raw (length raw - 1)))
     = (if last raw = 0 then [] else take (length raw - unat (last raw)) raw)"
proof -
  have l: "byteAt raw (length raw - 1) = int (unat (last raw))"
    using assms by (simp add: last_conv_nth byteAt_def)
  show ?thesis
  proof (cases "last raw = 0")
    case True
    then show ?thesis unfolding l by (simp add: slice_def adjustOffset_def)
  next
    case False
    then have "0 < unat (last raw)" by (simp add: unat_gt_0)
    then show ?thesis using False unfolding l
      by (auto simp add: slice_def adjustOffset_def Let_def nat_diff_distrib' simp del: of_nat_unat)
  qed
qed

lemma extractPayload_padding:
  assumes "padding hdr \<noteq> 0" and "raw = slice buffer headerLength None" and "raw \<noteq> []"
  shows "extractPayload buffer hdr headerLength
     = (if last raw = 0 then [] else take (length raw - unat (last raw)) raw)"
  using assms slice_drop_last [of raw] by (simp add: extractPayload_def Let_def)

lemma extractPayload_no_padding:
  "padding hdr = 0 \<Longrightarrow> extractPayload buffer hdr headerLength = slice buffer headerLength None"
  by (simp add: extractPayload_def Let_def)

text \<open>
  C7: with the padding bit set, the last payload byte \<open>k\<close> should remove exactly \<open>k\<close>
  trailing bytes, so that a count of 0 leaves the payload as it is. The parser evaluates
  \<^verbatim>\<open>payload.slice(0, -0)\<close>, which is empty: the three payload bytes are lost.
\<close>

theorem parsePacket_zero_padding:
  "slice [0xA0, 0x60, 0, 1, 0, 0, 0, 0, 0, 0, 0, 1, 0x11, 0x22, 0] 12 None = [0x11, 0x22, 0]
   \<and> snd (parsePacket new_RTPPacketParser [0xA0, 0x60, 0, 1, 0, 0, 0, 0, 0, 0, 0, 1, 0x11, 0x22, 0])
     = Inr (Some \<lparr>header = \<lparr>version = 2, padding = 1, extension = 0, csrcCount = 0, marker = 0,
                              payloadType = 96, sequenceNumber = 1, timestamp = 0, ssrc = 1\<rparr>,
                   payload = []\<rparr>)"
  by code_simp

section \<open>Properties of the RTP packet builder\<close>

lemma ToInt32_all_ones: "ToInt32 0xFFFFFFFF = - 1"
  by (simp add: ToInt32_def signed_take_bit_eq_take_bit_shift take_bit_eq_mod)

lemma incrementTimestamp_value:
  "RTPPacketBuilder.timestamp (incrementTimestamp this samples)
     = signed_take_bit 31 (RTPPacketBuilder.timestamp this + samples)"
  by (simp add: incrementTimestamp_def js_and_def ToInt32_all_ones) (simp add: ToInt32_def)

lemma incrementTimestamp_congruent:
  "RTPPacketBuilder.timestamp (incrementTimestamp this samples) mod 2 ^ 32
     = (RTPPacketBuilder.timestamp this + samples) mod 2 ^ 32"
proof -
  have "take_bit 32 (signed_take_bit 31 (RTPPacketBuilder.timestamp this + samples))
      = take_bit 32 (RTPPacketBuilder.timestamp this + samples)"
    by (simp add: take_bit_signed_take_bit)
  then show ?thesis by (simp add: incrementTimestamp_value take_bit_eq_mod)
qed

text \<open>
  C3: \<^verbatim>\<open>incrementTimestamp\<close> should leave \<open>(timestamp + samples) mod 2 ^ 32\<close>, a value
  from 0 up to \<open>2 ^ 32 - 1\<close>. The operator \<^verbatim>\<open>&\<close> yields a signed 32-bit value: from
  the timestamp \<open>0x7FFFFFFF\<close> one more sample gives \<open>- 2147483648\<close>, not \<open>2147483648\<close>.
\<close>

theorem incrementTimestamp_negative:
  "RTPPacketBuilder.timestamp
     (incrementTimestamp \<lparr>RTPPacketBuilder.payloadType = 96, RTPPacketBuilder.ssrc = 0x67670001,
        RTPPacketBuilder.sampleRate = 48000, RTPPacketBuilder.sequenceNumber = 0,
        RTPPacketBuilder.timestamp = 0x7FFFFFFF\<rparr> 1) = - 2147483648
   \<and> (0x7FFFFFFF + 1) mod 2 ^ 32 = (2147483648 :: int)"
  by (simp add: incrementTimestamp_value signed_take_bit_eq_take_bit_shift take_bit_eq_mod)

section \<open>Properties of the audio buffer manager\<close>

lemma totalSize_sum: "totalSize bufs = (\<Sum>b\<leftarrow>bufs. int (length b))"
proof -
  have "foldl (\<lambda>sum buf. sum + int (length buf)) a bufs = a + (\<Sum>b\<leftarrow>bufs. int (length b))" for a
    by (induction bufs arbitrary: a) simp_all
  then show ?thesis by (simp add: totalSize_def)
qed

lemma totalSize_simps [simp]:
  "totalSize [] = 0"
  "totalSize (b # bs) = int (length b) + totalSize bs"
  "totalSize (xs @ ys) = totalSize xs + totalSize ys"
  by (simp_all add: totalSize_sum)

lemma totalSize_nonneg: "0 \<le> totalSize bufs"
  by (induction bufs) simp_all

lemma trimBuffers_suffix: "suffix (trimBuffers limit bufs) bufs"
  by (induction bufs) (auto simp: suffix_Cons)

lemma trimBuffers_bound:
  "0 \<le> limit \<Longrightarrow> real_of_int (totalSize (trimBuffers limit bufs)) \<le> limit"
  by (induction bufs) auto

text \<open>Only what is needed is dropped: a longer remainder would still be over the limit.\<close>

lemma trimBuffers_minimal:
  "bufs = pre @ d # post @ trimBuffers limit bufs
    \<Longrightarrow> real_of_int (totalSize (d # post @ trimBuffers limit bufs)) > limit"
proof (induction bufs arbitrary: pre)
  case Nil
  then show ?case by simp
next
  case (Cons b bs)
  show ?case
  proof (cases "real_of_int (totalSize (b # bs)) > limit")
    case True
    then have t: "trimBuffers limit (b # bs) = trimBuffers limit bs" by simp
    from Cons.prems have eq: "b # bs = pre @ d # post @ trimBuffers limit bs" unfolding t .
    show ?thesis
    proof (cases pre)
      case Nil
      with eq have e: "d # post @ trimBuffers limit bs = b # bs" by simp
      show ?thesis unfolding t e using True .
    next
      case (Cons p pre')
      with eq have "bs = pre' @ d # post @ trimBuffers limit bs" by simp
      from Cons.IH [OF this] show ?thesis unfolding t .
    qed
  next
    case False
    then have "trimBuffers limit (b # bs) = b # bs" by simp
    with Cons.prems have "b # bs = pre @ d # post @ b # bs" by simp
    then have "length (b # bs) = length (pre @ d # post @ b # bs)" by (rule arg_cong)
    then show ?thesis by simp
  qed
qed

lemma addAudioData_buffers:
  "buffers (addAudioData this data)
     = (if real_of_int (totalSize (buffers this @ [data])) > maxBufferSize this
        then trimBuffers (maxBufferSize this * 0.8) (buffers this @ [data])
        else buffers this @ [data])"
  "maxBufferSize (addAudioData this data) = maxBufferSize this"
  by (simp_all add: addAudioData_def Let_def)

lemma addAll_max: "maxBufferSize (addAll this ds) = maxBufferSize this"
  by (induction ds arbitrary: this) (simp_all add: addAudioData_buffers)

lemma addAudioData_bound:
  assumes "0 \<le> maxBufferSize this"
  shows "real_of_int (getBufferedAmount (addAudioData this data)) \<le> maxBufferSize this"
proof (cases "real_of_int (totalSize (buffers this @ [data])) > maxBufferSize this")
  case True
  have "0 \<le> maxBufferSize this * 0.8" using assms by simp
  from trimBuffers_bound [OF this, of "buffers this @ [data]"] True assms
  show ?thesis by (simp add: getBufferedAmount_def addAudioData_buffers)
next
  case False
  then show ?thesis by (simp add: getBufferedAmount_def addAudioData_buffers)
qed

lemma addAll_bound:
  assumes "0 \<le> maxBufferSize this" "real_of_int (getBufferedAmount this) \<le> maxBufferSize this"
  shows "real_of_int (getBufferedAmount (addAll this ds)) \<le> maxBufferSize this"
  using assms
proof (induction ds arbitrary: this)
  case Nil
  then show ?case by simp
next
  case (Cons d ds)
  have "real_of_int (getBufferedAmount (addAll (addAudioData this d) ds)) \<le> maxBufferSize (addAudioData this d)"
    using Cons.prems(1) addAudioData_bound [OF Cons.prems(1), of d]
    by (intro Cons.IH) (simp_all add: addAudioData_buffers)
  then show ?case by (simp add: addAudioData_buffers)
qed

text \<open>
  C8: when an append takes the buffered total above \<^verbatim>\<open>maxBufferSize\<close>, chunks are
  dropped from the head, oldest first and no more than needed, until the total is at most
  80 percent of the cap; so after every append, and after every sequence of appends, the
  total is at most \<^verbatim>\<open>maxBufferSize\<close>. The cap is the product of a sample rate, a
  channel count and a sample width, taken not to be negative.
\<close>

theorem addAudioData_trims_to_cap:
  assumes "0 \<le> maxBufferSize this"
    and "this' = addAudioData this data"
  shows "(real_of_int (totalSize (buffers this @ [data])) > maxBufferSize this \<longrightarrow>
            suffix (buffers this') (buffers this @ [data])
          \<and> real_of_int (getBufferedAmount this') \<le> maxBufferSize this * 0.8
          \<and> (\<forall>pre d post. buffers this @ [data] = pre @ d # post @ buffers this' \<longrightarrow>
                 real_of_int (totalSize (d # post @ buffers this')) > maxBufferSize this * 0.8))
    \<and> (real_of_int (totalSize (buffers this @ [data])) \<le> maxBufferSize this \<longrightarrow>
            buffers this' = buffers this @ [data])
    \<and> real_of_int (getBufferedAmount this') \<le> maxBufferSize this
    \<and> (\<forall>ds. real_of_int (getBufferedAmount (addAll this' ds)) \<le> maxBufferSize this)"
proof -
  have lim: "0 \<le> maxBufferSize this * 0.8" using assms(1) by simp
  have b: "real_of_int (getBufferedAmount this') \<le> maxBufferSize this"
    using addAudioData_bound [OF assms(1)] assms(2) by simp
  have m: "maxBufferSize this' = maxBufferSize this" using assms(2) by (simp add: addAudioData_buffers)
  have all: "real_of_int (getBufferedAmount (addAll this' ds)) \<le> maxBufferSize this" for ds
    using addAll_bound [of this' ds] assms(1) b m by simp
  have over: "suffix (buffers this') (buffers this @ [data])
          \<and> real_of_int (getBufferedAmount this') \<le> maxBufferSize this * 0.8
          \<and> (\<forall>pre d post. buffers this @ [data] = pre @ d # post @ buffers this' \<longrightarrow>
                 real_of_int (totalSize (d # post @ buffers this')) > maxBufferSize this * 0.8)"
    if "real_of_int (totalSize (buffers this @ [data])) > maxBufferSize this"
  proof -
    have eq: "buffers this' = trimBuffers (maxBufferSize this * 0.8) (buffers this @ [data])"
      using that assms(2) by (simp add: addAudioData_buffers)
    show ?thesis
      unfolding eq getBufferedAmount_def
      using trimBuffers_suffix trimBuffers_bound [OF lim] trimBuffers_minimal by blast
  qed
  have under: "buffers this' = buffers this @ [data]"
    if "real_of_int (totalSize (buffers this @ [data])) \<le> maxBufferSize this"
    using that assms(2) by (simp add: addAudioData_buffers)
  show ?thesis using over under b all by blast
qed

theorem addAudioData_trims_to_cap_witness:
  "0 \<le> maxBufferSize (new_AudioBufferManager 10 1 2)
   \<and> real_of_int (getBufferedAmount (addAudioData (new_AudioBufferManager 10 1 2) [1, 2, 3]))
        \<le> maxBufferSize (new_AudioBufferManager 10 1 2)
   \<and> real_of_int (totalSize (buffers (new_AudioBufferManager 10 1 2) @ [[1, 2, 3]]))
        > maxBufferSize (new_AudioBufferManager 10 1 2)"
proof -
  have h: "0 \<le> maxBufferSize (new_AudioBufferManager 10 1 2)"
    by (simp add: new_AudioBufferManager_def)
  have o: "real_of_int (totalSize (buffers (new_AudioBufferManager 10 1 2) @ [[1, 2, 3]]))
        > maxBufferSize (new_AudioBufferManager 10 1 2)"
    by (simp add: new_AudioBufferManager_def)
  show ?thesis using h o addAudioData_trims_to_cap [OF h refl, of "[1, 2, 3]"] by blast
qed

section \<open>Properties of the SAP codec\<close>

subsection \<open>Decimal numbers and dotted quads\<close>

lemma digitValue_digitChar: "d < 10 \<Longrightarrow> digitValue (digitChar d) = Some d"
  by (simp add: digitValue_def digitChar_def Let_def)

lemma isDigitIn_digitChar: "d < 10 \<Longrightarrow> isDigitIn 10 (digitChar d)"
  by (simp add: isDigitIn_def digitValue_digitChar)

lemma digitChar_plain:
  assumes "d < 10"
  shows "\<not> isWhiteSpace (digitChar d)" "digitChar d \<noteq> CHR ''-''" "digitChar d \<noteq> CHR ''+''"
    "digitChar d \<noteq> CHR ''x''" "digitChar d \<noteq> CHR ''X''" "digitChar d \<noteq> CHR ''.''"
proof -
  have o: "of_char (digitChar d) = 48 + d" using assms by (simp add: digitChar_def)
  have ne: "digitChar d \<noteq> c" if "of_char c < (48::nat) \<or> of_char c > (57::nat)" for c
  proof
    assume "digitChar d = c"
    then have "of_char c = 48 + d" using o by simp
    with that assms show False by simp
  qed
  show "\<not> isWhiteSpace (digitChar d)" using ne by (auto simp add: isWhiteSpace_def)
  show "digitChar d \<noteq> CHR ''-''" by (rule ne) simp
  show "digitChar d \<noteq> CHR ''+''" by (rule ne) simp
  show "digitChar d \<noteq> CHR ''x''" by (rule ne) simp
  show "digitChar d \<noteq> CHR ''X''" by (rule ne) simp
  show "digitChar d \<noteq> CHR ''.''" by (rule ne) simp
qed

lemma showNat_chars: "c \<in> set (showNat n) \<Longrightarrow> \<exists>d<10. c = digitChar d"
proof (induction n arbitrary: c rule: showNat.induct)
  case (1 n)
  show ?case
  proof (cases "n < 10")
    case True
    with "1.prems" show ?thesis by (subst (asm) showNat.simps) auto
  next
    case False
    with "1.prems" have "c \<in> set (showNat (n div 10)) \<or> c = digitChar (n mod 10)"
      by (subst (asm) showNat.simps) auto
    then show ?thesis
    proof
      assume "c \<in> set (showNat (n div 10))"
      with "1.IH" False show ?thesis by blast
    next
      assume "c = digitChar (n mod 10)"
      moreover have "n mod 10 < 10" by simp
      ultimately show ?thesis by blast
    qed
  qed
qed

lemma showNat_nonempty: "showNat n \<noteq> []"
  by (subst showNat.simps) simp

lemma parseDigits_snoc:
  "parseDigits R (xs @ [c]) = parseDigits R xs * R + (case digitValue c of None \<Rightarrow> 0 | Some d \<Rightarrow> d)"
  by (simp add: parseDigits_def)

lemma parseDigits_showNat: "parseDigits 10 (showNat n) = n"
proof (induction n rule: showNat.induct)
  case (1 n)
  show ?case
  proof (cases "n < 10")
    case True
    then show ?thesis
      by (subst showNat.simps) (simp add: parseDigits_def digitValue_digitChar)
  next
    case False
    have "parseDigits 10 (showNat n) = parseDigits 10 (showNat (n div 10) @ [digitChar (n mod 10)])"
      using False by (subst showNat.simps) simp
    also have "\<dots> = (n div 10) * 10 + n mod 10"
      using "1.IH" False by (simp add: parseDigits_snoc digitValue_digitChar)
    finally show ?thesis by simp
  qed
qed

lemma parseInt_showNat: "parseInt (showNat n) = Some (int n)"
proof -
  have dig: "\<And>x. x \<in> set (showNat n) \<Longrightarrow> \<exists>d<10. x = digitChar d" by (rule showNat_chars)
  have ne: "showNat n \<noteq> []" by (rule showNat_nonempty)
  then have "hd (showNat n) \<in> set (showNat n)" by simp
  from dig [OF this] obtain d where d: "d < 10" "hd (showNat n) = digitChar d" by blast
  have h: "\<not> isWhiteSpace (hd (showNat n))" "hd (showNat n) \<noteq> CHR ''-''" "hd (showNat n) \<noteq> CHR ''+''"
    using d digitChar_plain by simp_all
  have S: "dropWhile isWhiteSpace (showNat n) = showNat n"
    using ne h(1) by (cases "showNat n") simp_all
  have nohex: "\<not> prefix ''0x'' (showNat n)" "\<not> prefix ''0X'' (showNat n)"
  proof -
    show "\<not> prefix ''0x'' (showNat n)"
    proof
      assume "prefix ''0x'' (showNat n)"
      then have "CHR ''x'' \<in> set (showNat n)" by (auto simp: prefix_def)
      from dig [OF this] digitChar_plain(4) show False by metis
    qed
    show "\<not> prefix ''0X'' (showNat n)"
    proof
      assume "prefix ''0X'' (showNat n)"
      then have "CHR ''X'' \<in> set (showNat n)" by (auto simp: prefix_def)
      from dig [OF this] digitChar_plain(5) show False by metis
    qed
  qed
  have all: "\<forall>x \<in> set (showNat n). isDigitIn 10 x" using dig isDigitIn_digitChar by blast
  then have Z: "takeWhile (isDigitIn 10) (showNat n) = showNat n" by (simp add: takeWhile_eq_all_conv)
  show ?thesis
    unfolding parseInt_def Let_def S
    by (simp only: ne h nohex Z parseDigits_showNat simp_thms if_False if_True) simp
qed

lemma showNat_no_dot: "CHR ''.'' \<notin> set (showNat n)"
  using showNat_chars digitChar_plain(6) by metis

lemma js_split_single: "sep \<notin> set w \<Longrightarrow> js_split sep w = [w]"
  by (induction w) auto

lemma js_split_first: "sep \<notin> set w \<Longrightarrow> js_split sep (w @ sep # rest) = w # js_split sep rest"
proof (induction w)
  case Nil
  then show ?case by simp
next
  case (Cons c w)
  then show ?case by auto
qed

lemma js_split_dottedQuad:
  "js_split CHR ''.'' (dottedQuad a b c d) = [showNat a, showNat b, showNat c, showNat d]"
  by (simp add: dottedQuad_def js_split_first js_split_single showNat_no_dot)

lemma ipParts_dottedQuad:
  "map parseInt (js_split CHR ''.'' (dottedQuad a b c d)) = [Some (int a), Some (int b), Some (int c), Some (int d)]"
  by (simp add: js_split_dottedQuad parseInt_showNat)

lemma showNat_examples:
  "showNat 192 = ''192''" "showNat 168 = ''168''" "showNat (Suc 0) = ''1''" "showNat 10 = ''10''"
  by (simp_all add: showNat.simps digitChar_def char_of_eq_iff take_bit_eq_mod)

lemma example_ip: "dottedQuad 192 168 (Suc 0) 10 = ''192.168.1.10''"
  by (simp add: dottedQuad_def showNat_examples)

subsection \<open>Packet layout\<close>

lemma list8_explicit:
  "length T = 8 \<Longrightarrow> \<exists>a0 a1 a2 a3 a4 a5 a6 a7. T = [a0, a1, a2, a3, a4, a5, a6, a7]"
  by (auto simp: eval_nat_numeral length_Suc_conv)

lemma take8_explicit:
  assumes "8 \<le> length P"
  shows "\<exists>a0 a1 a2 a3 a4 a5 a6 a7. P = [a0, a1, a2, a3, a4, a5, a6, a7] @ drop 8 P"
proof -
  have "length (take 8 P) = 8" using assms by simp
  from list8_explicit [OF this] obtain a0 a1 a2 a3 a4 a5 a6 a7 where
    "take 8 P = [a0, a1, a2, a3, a4, a5, a6, a7]" by blast
  then have "P = [a0, a1, a2, a3, a4, a5, a6, a7] @ drop 8 P"
    using append_take_drop_id [of 8 P] by simp
  then show ?thesis by blast
qed

lemma copy_append:
  "copy src (pre @ rest) (length pre) = pre @ take (length rest) src @ drop (length src) rest"
  by (cases "rest = []") (auto simp add: copy_def Let_def min_def)

lemma storedByte_simps [simp]: "storedByte (Some n) = word_of_int n" "storedByte None = 0"
  by (simp_all add: storedByte_def)

lemma allocUnsafe_length [simp]: "length (allocUnsafe junk n) = n"
  by (simp add: allocUnsafe_def)

text \<open>The first eight bytes after the header writes; the rest of the allocation is untouched.\<close>

lemma header_writes:
  assumes "8 \<le> length P" and "0 \<le> h" and "h \<le> 65535"
  shows "\<exists>P'. writeUInt16BE (setByte (setByte P 0 (Some b0)) 1 (Some 0)) h 2 = Inr P'
    \<and> setByte (setByte (setByte (setByte P' 4 o0) 5 o1) 6 o2) 7 o3
      = [word_of_int b0, 0, word_of_int (h div 256), word_of_int h,
         storedByte o0, storedByte o1, storedByte o2, storedByte o3] @ drop 8 P"
proof -
  from take8_explicit [OF assms(1)] obtain a0 a1 a2 a3 a4 a5 a6 a7 where
    P: "P = [a0, a1, a2, a3, a4, a5, a6, a7] @ drop 8 P" by blast
  define R where "R = drop 8 P"
  have P': "P = [a0, a1, a2, a3, a4, a5, a6, a7] @ R" using P R_def by simp
  show ?thesis
    unfolding P' using assms(2,3)
    by (simp add: setByte_def writeUInt16BE_def R_def [symmetric])
qed


lemma Buffer_from_length [simp]: "length (Buffer_from s) = length s"
  by (simp add: Buffer_from_def)

lemma Buffer_from_append: "Buffer_from (s @ t) = Buffer_from s @ Buffer_from t"
  by (simp add: Buffer_from_def)

text \<open>The packet of the sender, for every source address string and every text.\<close>

lemma SAPAnnouncer_packet_layout:
  assumes "0 \<le> SAPAnnouncer.msgIdHash this" and "SAPAnnouncer.msgIdHash this \<le> 65535"
    and "ipParts = map parseInt (js_split CHR ''.'' (SAPAnnouncer.sourceIP this))"
  shows "SAPAnnouncer_packet byte0 junk this sdpData
    = Inr ([word_of_int byte0, 0,
            word_of_int (SAPAnnouncer.msgIdHash this div 256), word_of_int (SAPAnnouncer.msgIdHash this),
            storedByte (elemAt ipParts 0), storedByte (elemAt ipParts 1),
            storedByte (elemAt ipParts 2), storedByte (elemAt ipParts 3)]
           @ Buffer_from (''application/sdp'' @ [CHR 0x00]) @ Buffer_from sdpData)"
proof -
  define tag where "tag = Buffer_from (''application/sdp'' @ [CHR 0x00])"
  define body where "body = Buffer_from sdpData"
  define P where "P = allocUnsafe junk (8 + length tag + length body)"
  have lt: "length tag = 16" by (simp add: tag_def)
  have lP: "length P = 24 + length body" by (simp add: P_def lt)
  then have P8: "8 \<le> length P" by simp
  from header_writes [OF P8 assms(1,2), of byte0 "elemAt ipParts 0" "elemAt ipParts 1"
      "elemAt ipParts 2" "elemAt ipParts 3"]
  obtain P' where
    w: "writeUInt16BE (setByte (setByte P 0 (Some byte0)) 1 (Some 0)) (SAPAnnouncer.msgIdHash this) 2 = Inr P'"
    and h: "setByte (setByte (setByte (setByte P' 4 (elemAt ipParts 0)) 5 (elemAt ipParts 1)) 6
               (elemAt ipParts 2)) 7 (elemAt ipParts 3)
      = [word_of_int byte0, 0,
         word_of_int (SAPAnnouncer.msgIdHash this div 256), word_of_int (SAPAnnouncer.msgIdHash this),
         storedByte (elemAt ipParts 0), storedByte (elemAt ipParts 1),
         storedByte (elemAt ipParts 2), storedByte (elemAt ipParts 3)] @ drop 8 P"
    by blast
  define H where "H = [word_of_int byte0, 0,
         word_of_int (SAPAnnouncer.msgIdHash this div 256), word_of_int (SAPAnnouncer.msgIdHash this),
         storedByte (elemAt ipParts 0), storedByte (elemAt ipParts 1),
         storedByte (elemAt ipParts 2), storedByte (elemAt ipParts 3)]"
  have lH: "length H = 8" by (simp add: H_def)
  have c1: "copy tag (H @ drop 8 P) 8 = H @ tag @ drop 16 (drop 8 P)"
    using copy_append [of tag H "drop 8 P"] lH lt lP by simp
  have c2: "copy body ((H @ tag) @ drop 16 (drop 8 P)) 24 = (H @ tag) @ body"
    using copy_append [of body "H @ tag" "drop 16 (drop 8 P)"] lH lt lP by simp
  have "SAPAnnouncer_packet byte0 junk this sdpData = Inr (copy body (copy tag (H @ drop 8 P) 8) 24)"
    unfolding SAPAnnouncer_packet_def Let_def tag_def [symmetric] body_def [symmetric]
      P_def [symmetric] assms(3) [symmetric]
    using w h by (simp add: H_def lt)
  also have "\<dots> = Inr (H @ tag @ body)" using c1 c2 by simp
  finally show ?thesis by (simp add: H_def tag_def body_def)
qed

text \<open>The packet of the router: the tag is cut after eight bytes and the text starts at offset 16.\<close>

lemma AES67Discovery_createSAPPacket_layout:
  assumes "sdpData \<noteq> []"
    and "ipParts = map (\<lambda>p. Some (orDefault (parseInt p) 0)) (js_split CHR ''.'' localIP)"
    and "length ipParts = 4"
  shows "AES67Discovery_createSAPPacket junk localIP sdpData
    = Some ([0x20, 0, 0, 0,
             storedByte (elemAt ipParts 0), storedByte (elemAt ipParts 1),
             storedByte (elemAt ipParts 2), storedByte (elemAt ipParts 3)]
            @ Buffer_from ''applicat'' @ Buffer_from sdpData)"
proof -
  define tag where "tag = Buffer_from ''application/sdp''"
  define body where "body = Buffer_from sdpData"
  define P where "P = allocUnsafe junk (8 + 8 + length body)"
  have lt: "length tag = 15" by (simp add: tag_def)
  have lb: "0 < length body" using assms(1) by (simp add: body_def)
  have lP: "length P = 16 + length body" by (simp add: P_def)
  then have P8: "8 \<le> length P" by simp
  from header_writes [OF P8, of 0 "0x20" "elemAt ipParts 0" "elemAt ipParts 1"
      "elemAt ipParts 2" "elemAt ipParts 3"]
  obtain P' where
    w: "writeUInt16BE (setByte (setByte P 0 (Some 0x20)) 1 (Some 0)) 0 2 = Inr P'"
    and h: "setByte (setByte (setByte (setByte P' 4 (elemAt ipParts 0)) 5 (elemAt ipParts 1)) 6
               (elemAt ipParts 2)) 7 (elemAt ipParts 3)
      = [0x20, 0, 0, 0,
         storedByte (elemAt ipParts 0), storedByte (elemAt ipParts 1),
         storedByte (elemAt ipParts 2), storedByte (elemAt ipParts 3)] @ drop 8 P"
    by auto
  define H where "H = [0x20, 0, 0, 0,
         storedByte (elemAt ipParts 0), storedByte (elemAt ipParts 1),
         storedByte (elemAt ipParts 2), storedByte (elemAt ipParts 3)]"
  have lH: "length H = 8" by (simp add: H_def)
  define X where "X = take (length (drop 8 P)) tag @ drop (length tag) (drop 8 P)"
  have lX: "length X = 8 + length body" by (simp add: X_def lt lP min_def)
  have c1: "copy tag (H @ drop 8 P) 8 = H @ X"
    using copy_append [of tag H "drop 8 P"] lH by (simp add: X_def)
  have t8: "take 8 X = take 8 tag" by (simp add: X_def lP lt min_def)
  have split: "H @ X = (H @ take 8 tag) @ drop 8 X"
    using append_take_drop_id [of 8 X] t8 by simp
  have c2: "copy body (H @ X) 16 = (H @ take 8 tag) @ body"
    unfolding split using copy_append [of body "H @ take 8 tag" "drop 8 X"] lH lt lX by simp
  have t: "take 8 tag = Buffer_from ''applicat''" by (simp add: tag_def Buffer_from_def)
  have "AES67Discovery_createSAPPacket junk localIP sdpData = Some (copy body (copy tag (H @ drop 8 P) 8) 16)"
    unfolding AES67Discovery_createSAPPacket_def Let_def bufWrite_def tag_def [symmetric]
      body_def [symmetric] P_def [symmetric] assms(2) [symmetric]
    using w h assms(1,3) by (simp add: H_def)
  also have "\<dots> = Some (H @ Buffer_from ''applicat'' @ body)" using c1 c2 t by simp
  finally show ?thesis by (simp add: H_def body_def)
qed

lemma elemAt4:
  "elemAt [x0, x1, x2, x3] 0 = x0" "elemAt [x0, x1, x2, x3] (Suc 0) = x1"
  "elemAt [x0, x1, x2, x3] 2 = x2" "elemAt [x0, x1, x2, x3] 3 = x3"
  by (simp_all add: elemAt_def)

lemma SAPAnnouncer_packet_dottedQuad:
  assumes "SAPAnnouncer.sourceIP this = dottedQuad a b c d"
    and "0 \<le> SAPAnnouncer.msgIdHash this" and "SAPAnnouncer.msgIdHash this \<le> 65535"
  shows "SAPAnnouncer_packet byte0 junk this sdpData
    = Inr ([word_of_int byte0, 0,
            word_of_int (SAPAnnouncer.msgIdHash this div 256), word_of_int (SAPAnnouncer.msgIdHash this),
            word_of_nat a, word_of_nat b, word_of_nat c, word_of_nat d]
           @ Buffer_from (''application/sdp'' @ [CHR 0x00]) @ Buffer_from sdpData)"
  using SAPAnnouncer_packet_layout [OF assms(2,3) refl, of byte0 junk sdpData]
  by (simp add: assms(1) ipParts_dottedQuad elemAt4)

lemma router_ipParts:
  "map (\<lambda>p. Some (orDefault (parseInt p) 0)) (js_split CHR ''.'' (dottedQuad a b c d))
     = [Some (int a), Some (int b), Some (int c), Some (int d)]"
  by (simp add: js_split_dottedQuad parseInt_showNat orDefault_def)

lemma AES67Discovery_createSAPPacket_dottedQuad:
  assumes "sdpData \<noteq> []"
  shows "AES67Discovery_createSAPPacket junk (dottedQuad a b c d) sdpData
    = Some ([0x20, 0, 0, 0, word_of_nat a, word_of_nat b, word_of_nat c, word_of_nat d]
            @ Buffer_from ''applicat'' @ Buffer_from sdpData)"
  using AES67Discovery_createSAPPacket_layout [OF assms refl, of "dottedQuad a b c d" junk]
  by (simp add: router_ipParts elemAt4)

text \<open>
  The sender's packets, announcement (\<open>0x20\<close>) and deletion (\<open>0x24\<close>) alike, have the
  layout of the encoder: eight header bytes with the source octets at 4 to 7, the
  sixteen-byte tag with its null terminator, then the text from offset 24.
\<close>

lemma sender_packets_layout:
  assumes "SAPAnnouncer.sourceIP this = dottedQuad a b c d"
    and "0 \<le> SAPAnnouncer.msgIdHash this" and "SAPAnnouncer.msgIdHash this \<le> 65535"
  shows "SAPAnnouncer_createSAPPacket junk this sdpData
      = Inr ([0x20, 0,
              word_of_int (SAPAnnouncer.msgIdHash this div 256), word_of_int (SAPAnnouncer.msgIdHash this),
              word_of_nat a, word_of_nat b, word_of_nat c, word_of_nat d]
             @ Buffer_from (''application/sdp'' @ [CHR 0x00]) @ Buffer_from sdpData)"
    and "sendDeletion_packet junk this sdpData
      = Inr ([0x24, 0,
              word_of_int (SAPAnnouncer.msgIdHash this div 256), word_of_int (SAPAnnouncer.msgIdHash this),
              word_of_nat a, word_of_nat b, word_of_nat c, word_of_nat d]
             @ Buffer_from (''application/sdp'' @ [CHR 0x00]) @ Buffer_from sdpData)"
  using SAPAnnouncer_packet_dottedQuad [OF assms, of "0x20" junk sdpData]
    SAPAnnouncer_packet_dottedQuad [OF assms, of "0x24" junk sdpData]
  by (simp_all add: SAPAnnouncer_createSAPPacket_def sendDeletion_packet_def)

text \<open>
  C5: every encoder should put the sixteen-byte tag \<^verbatim>\<open>application/sdp\<close> with its null
  terminator at bytes 8 to 23 and the text from offset 24. The sender does
  (\<open>sender_packets_layout\<close>). The router's \<^verbatim>\<open>createSAPPacket\<close> reserves eight bytes
  for the tag and copies the text to offset 16: its packet carries \<^verbatim>\<open>applicat\<close> at bytes
  8 to 15, no null terminator, and the text from offset 16.
\<close>

theorem AES67Discovery_createSAPPacket_truncated_tag:
  "AES67Discovery_createSAPPacket zeroFill ''192.168.1.10'' exampleSDP
     = Some ([0x20, 0, 0, 0, 192, 168, 1, 10] @ Buffer_from ''applicat'' @ Buffer_from exampleSDP)
   \<and> SAPAnnouncer_createSAPPacket zeroFill exampleAnnouncer exampleSDP
     = Inr ([0x20, 0, 0x12, 0x34, 192, 168, 1, 10]
            @ Buffer_from (''application/sdp'' @ [CHR 0x00]) @ Buffer_from exampleSDP)"
proof -
  have ne: "exampleSDP \<noteq> []" by (simp add: exampleSDP_def)
  have r: "AES67Discovery_createSAPPacket zeroFill ''192.168.1.10'' exampleSDP
     = Some ([0x20, 0, 0, 0, 192, 168, 1, 10] @ Buffer_from ''applicat'' @ Buffer_from exampleSDP)"
    using AES67Discovery_createSAPPacket_dottedQuad [OF ne, of zeroFill 192 168 1 10]
    by (simp add: example_ip)
  have h7: "SAPAnnouncer.sourceIP exampleAnnouncer = dottedQuad 192 168 1 10"
    by (simp add: exampleAnnouncer_def example_ip)
  have h8: "0 \<le> SAPAnnouncer.msgIdHash exampleAnnouncer" by (simp add: exampleAnnouncer_def)
  have h9: "SAPAnnouncer.msgIdHash exampleAnnouncer \<le> 65535" by (simp add: exampleAnnouncer_def)
  have s: "SAPAnnouncer_createSAPPacket zeroFill exampleAnnouncer exampleSDP
     = Inr ([0x20, 0, 0x12, 0x34, 192, 168, 1, 10]
            @ Buffer_from (''application/sdp'' @ [CHR 0x00]) @ Buffer_from exampleSDP)"
    unfolding SAPAnnouncer_createSAPPacket_def
    using SAPAnnouncer_packet_dottedQuad [OF h7 h8 h9, of "0x20" zeroFill exampleSDP]
    by (simp add: exampleAnnouncer_def)
  show ?thesis using r s by simp
qed

subsection \<open>Decoding\<close>

lemma unat_of_char: "unat (of_char c :: byte) = of_char c"
proof -
  have "unat (of_nat (of_char c) :: byte) = of_char c mod 256"
    by (simp only: unat_of_nat take_bit_eq_mod) simp
  then show ?thesis by (simp only: of_nat_of_char of_char_mod_256)
qed

lemma toString_Buffer_from: "toString (Buffer_from s) = s"
  by (simp add: toString_def Buffer_from_def comp_def unat_of_char map_idI)

lemma of_char_zero:
  assumes "(of_char c :: byte) = 0"
  shows "c = CHR 0x00"
proof -
  from assms have "unat (of_char c :: byte) = 0" by simp
  then have "(of_char c :: nat) = 0" by (simp only: unat_of_char)
  then have "char_of (of_char c :: nat) = char_of (0::nat)" by simp
  then show ?thesis by (simp add: char_of_eq_iff)
qed

lemma Buffer_from_nonzero: "CHR 0x00 \<notin> set s \<Longrightarrow> 0 \<notin> set (Buffer_from s)"
  using of_char_zero by (auto simp: Buffer_from_def)

lemma skipToNull_scan:
  "0 \<notin> set body \<Longrightarrow> skipToNull (pre @ body @ 0 # rest) (length pre) = length pre + length body"
proof (induction body arbitrary: pre)
  case Nil
  show ?case by (subst skipToNull.simps) (simp add: byteAt_def)
next
  case (Cons b body)
  then have b: "b \<noteq> 0" and nz: "0 \<notin> set body" by auto
  have "skipToNull (pre @ (b # body) @ 0 # rest) (length pre)
      = skipToNull (pre @ (b # body) @ 0 # rest) (length pre + 1)"
    using b by (subst skipToNull.simps) (simp add: byteAt_def uint_0_iff)
  also have "\<dots> = skipToNull ((pre @ [b]) @ body @ 0 # rest) (length (pre @ [b]))" by simp
  also have "\<dots> = length (pre @ [b]) + length body" using nz by (rule Cons.IH)
  finally show ?case by simp
qed

lemma skipToNull_no_null:
  "0 \<notin> set body \<Longrightarrow> skipToNull (pre @ body) (length pre) = length pre + length body"
proof (induction body arbitrary: pre)
  case Nil
  show ?case by (subst skipToNull.simps) simp
next
  case (Cons b body)
  then have b: "b \<noteq> 0" and nz: "0 \<notin> set body" by auto
  have "skipToNull (pre @ b # body) (length pre) = skipToNull (pre @ b # body) (length pre + 1)"
    using b by (subst skipToNull.simps) (simp add: byteAt_def uint_0_iff)
  also have "\<dots> = skipToNull ((pre @ [b]) @ body) (length (pre @ [b]))" by simp
  also have "\<dots> = length (pre @ [b]) + length body" using nz by (rule Cons.IH)
  finally show ?case by simp
qed

lemma slice_from: "length pre = k \<Longrightarrow> slice (pre @ xs) (int k) None = xs"
  by (cases "xs = []") (auto simp: slice_def adjustOffset_def Let_def)

lemma slice_window:
  "length pre = k \<Longrightarrow> n \<le> length xs \<Longrightarrow> 0 < n
    \<Longrightarrow> slice (pre @ xs) (int k) (Some (int k + int n)) = take n xs"
  by (auto simp: slice_def adjustOffset_def Let_def nat_add_distrib)

lemma sap_bits: "js_and (js_shr 0x20 5) 0x7 = 1" "js_and (js_shr 0x20 2) 0x1 = 0"
  by (simp_all add: js_and_def js_shr_def ToInt32_def signed_take_bit_eq_take_bit_shift take_bit_eq_mod drop_bit_eq_div)

lemma take_Buffer_from: "take n (Buffer_from s) = Buffer_from (take n s)"
  by (simp add: Buffer_from_def take_map)


lemma byteAt_octet:
  assumes "n < 256"
  shows "uint (word_of_nat n :: byte) = int n"
proof -
  have "unat (word_of_nat n :: byte) = n" using assms by (simp add: unat_of_nat take_bit_eq_mod)
  then have "int (unat (word_of_nat n :: byte)) = int n" by (rule arg_cong)
  then show ?thesis by (simp only: of_nat_unat) 
qed

lemma handleSAPMessage_tagged:
  assumes "msg = [0x20, 0, hi, lo, word_of_int (int a), word_of_int (int b), word_of_int (int c), word_of_int (int d)]
                 @ Buffer_from (''application/sdp'' @ [CHR 0x00]) @ Buffer_from txt"
    and "a < 256" "b < 256" "c < 256" "d < 256"
    and "txt \<noteq> []"
  shows "handleSAPMessage msg addr =
     (let off = (if 8 < length txt \<and> sublist ''sdp'' (take 8 txt) then 8 else 0);
          sdpData = drop off txt
      in if prefix ''v=0'' sdpData
         then Some \<lparr>sdpString = sdpData, call_sourceIP = dottedQuad a b c d,
                    actualIP = addr, call_messageType = 0\<rparr>
         else None)"
proof -
  define H :: buffer where "H = [0x20, 0, hi, lo, word_of_int (int a), word_of_int (int b), word_of_int (int c), word_of_int (int d)]"
  define T where "T = Buffer_from ''application/sdp''"
  define B where "B = Buffer_from txt"
  have msg: "msg = H @ T @ 0 # B"
    using assms(1) by (simp add: H_def T_def B_def Buffer_from_def)
  have lH: "length H = 8" by (simp add: H_def)
  have lT: "length T = 15" by (simp add: T_def)
  have lB: "length B = length txt" "0 < length B" using assms(6) by (simp_all add: B_def)
  have lm: "length msg = 24 + length txt" by (simp add: msg lH lT lB)
  have Tnz: "0 \<notin> set T" unfolding T_def by (rule Buffer_from_nonzero) simp
  have scan: "skipToNull msg 8 = 23"
    using skipToNull_scan [OF Tnz, of H B] by (simp add: msg lH lT)
  have hdr: "byteAt msg 0 = 0x20" "byteAt msg (Suc 0) = 0"
    "byteAt msg 4 = int a" "byteAt msg 5 = int b" "byteAt msg 6 = int c" "byteAt msg 7 = int d"
    using assms(2-5) by (simp_all add: msg H_def byteAt_def byteAt_octet)
  have ip: "showInt (byteAt msg 4) @ ''.'' @ showInt (byteAt msg 5) @ ''.''
            @ showInt (byteAt msg 6) @ ''.'' @ showInt (byteAt msg 7) = dottedQuad a b c d"
    by (simp add: hdr showInt_def dottedQuad_def)
  have rd: "\<exists>h. readUInt16BE msg 2 = Inr h" by (simp add: readUInt16BE_def lm)
  define Pre where "Pre = H @ T @ [0]"
  have lPre: "length Pre = 24" by (simp add: Pre_def lH lT)
  have m24: "msg = Pre @ B" by (simp add: msg Pre_def)
  have win: "toString (slice msg 24 (Some (24 + 8))) = take 8 txt" if "8 < length txt"
  proof -
    have "slice (Pre @ B) (int 24) (Some (int 24 + int 8)) = take 8 B"
      using that lB by (intro slice_window lPre) simp_all
    then have "slice msg 24 (Some (24 + 8)) = take 8 B" unfolding m24 by simp
    then show ?thesis by (simp add: B_def take_Buffer_from toString_Buffer_from)
  qed
  have rest0: "toString (slice msg 24 None) = txt"
  proof -
    have "slice (Pre @ B) (int 24) None = B" using lPre by (rule slice_from)
    then have "slice msg 24 None = B" unfolding m24 by simp
    then show ?thesis by (simp add: B_def toString_Buffer_from)
  qed
  have rest8: "toString (slice msg 32 None) = drop 8 txt" if "8 < length txt"
  proof -
    define Pre8 where "Pre8 = Pre @ take 8 B"
    have l8: "length Pre8 = 32" using that lB lPre by (simp add: Pre8_def)
    have m32: "msg = Pre8 @ drop 8 B" by (simp add: m24 Pre8_def)
    have "slice (Pre8 @ drop 8 B) (int 32) None = drop 8 B" using l8 by (rule slice_from)
    then have "slice msg 32 None = drop 8 B" unfolding m32 by simp
    moreover have "drop 8 B = Buffer_from (drop 8 txt)" by (simp add: B_def Buffer_from_def drop_map)
    ultimately show ?thesis by (simp add: toString_Buffer_from)
  qed
  from rd obtain h where h: "readUInt16BE msg 2 = Inr h" by blast
  show ?thesis
  proof (cases "8 < length txt \<and> sublist ''sdp'' (take 8 txt)")
    case True
    then have ne: "drop 8 txt \<noteq> []" by simp
    show ?thesis
      unfolding handleSAPMessage_def Let_def
      using True h scan lm ip win rest8 ne
      by (simp add: hdr sap_bits)
  next
    case False
    show ?thesis
    proof (cases "8 < length txt")
      case True
      with False have ns: "\<not> sublist ''sdp'' (take 8 txt)" by simp
      show ?thesis
        unfolding handleSAPMessage_def Let_def
        using True ns h scan lm ip win rest0 assms(6)
        by (simp add: hdr sap_bits)
    next
      case False
      show ?thesis
        unfolding handleSAPMessage_def Let_def
        using False h scan lm ip rest0 assms(6)
        by (simp add: hdr sap_bits)
    qed
  qed
qed

text \<open>The router's listener drops the router's own announcement: it finds no null byte.\<close>

lemma own_announcement_dropped:
  assumes "sdpData \<noteq> []" and "CHR 0x00 \<notin> set sdpData"
    and "AES67Discovery_createSAPPacket junk (dottedQuad a b c d) sdpData = Some packet"
  shows "handleSAPMessage packet addr = None"
proof -
  define H :: buffer where "H = [0x20, 0, 0, 0, word_of_nat a, word_of_nat b, word_of_nat c, word_of_nat d]"
  define B where "B = Buffer_from (''applicat'' @ sdpData)"
  have "Some packet = Some (H @ B)"
    unfolding assms(3) [symmetric] H_def B_def Buffer_from_append
    using AES67Discovery_createSAPPacket_dottedQuad [OF assms(1), of junk a b c d] by simp
  then have msg: "packet = H @ B" by simp
  have lH: "length H = 8" by (simp add: H_def)
  have nz: "0 \<notin> set B" unfolding B_def by (rule Buffer_from_nonzero) (use assms(2) in simp)
  have lm: "length packet = 16 + length sdpData" by (simp add: msg lH B_def)
  have scan: "skipToNull packet 8 = length packet"
    using skipToNull_no_null [OF nz, of H] by (simp add: msg lH)
  have hdr: "byteAt packet 0 = 0x20" "byteAt packet (Suc 0) = 0"
    by (simp_all add: msg H_def byteAt_def)
  show ?thesis
    unfolding handleSAPMessage_def Let_def
    using scan lm by (simp add: hdr sap_bits readUInt16BE_def)
qed

text \<open>
  C1, as amended: for every text that begins with \<^verbatim>\<open>v=0\<close> and either has at most
  eight bytes or does not have \<^verbatim>\<open>sdp\<close> among its first eight bytes, and every
  dotted-quad source address, the listener decodes the sender's announcement to exactly
  that source address and that text, with message type 0.
\<close>

theorem sap_roundtrip:
  assumes "prefix ''v=0'' sdpData"
    and "\<not> (8 < length sdpData \<and> sublist ''sdp'' (take 8 sdpData))"
    and "a < 256" and "b < 256" and "c < 256" and "d < 256"
    and "SAPAnnouncer.sourceIP this = dottedQuad a b c d"
    and "0 \<le> SAPAnnouncer.msgIdHash this" and "SAPAnnouncer.msgIdHash this \<le> 65535"
  shows "announceThenDecode junk this sdpData addr
    = Inr (Some \<lparr>sdpString = sdpData, call_sourceIP = dottedQuad a b c d,
                 actualIP = addr, call_messageType = 0\<rparr>)"
proof -
  have ne: "sdpData \<noteq> []" using assms(1) by auto
  define packet where "packet = [0x20, 0,
            word_of_int (SAPAnnouncer.msgIdHash this div 256), word_of_int (SAPAnnouncer.msgIdHash this),
            word_of_int (int a), word_of_int (int b), word_of_int (int c), word_of_int (int d)]
           @ Buffer_from (''application/sdp'' @ [CHR 0x00]) @ Buffer_from sdpData"
  have enc: "SAPAnnouncer_createSAPPacket junk this sdpData = Inr packet"
    unfolding SAPAnnouncer_createSAPPacket_def packet_def
    using SAPAnnouncer_packet_dottedQuad [OF assms(7,8,9), of "0x20" junk sdpData] by simp
  have dec: "handleSAPMessage packet addr
     = Some \<lparr>sdpString = sdpData, call_sourceIP = dottedQuad a b c d,
             actualIP = addr, call_messageType = 0\<rparr>"
    using handleSAPMessage_tagged [OF packet_def assms(3-6) ne, of addr] assms(1,2)
    by (simp add: Let_def)
  show ?thesis by (simp add: announceThenDecode_def enc dec)
qed

theorem sap_roundtrip_witness:
  "prefix ''v=0'' exampleSDP
   \<and> \<not> (8 < length exampleSDP \<and> sublist ''sdp'' (take 8 exampleSDP))
   \<and> SAPAnnouncer.sourceIP exampleAnnouncer = dottedQuad 192 168 1 10
   \<and> announceThenDecode zeroFill exampleAnnouncer exampleSDP ''10.0.0.7''
     = Inr (Some \<lparr>sdpString = exampleSDP, call_sourceIP = ''192.168.1.10'',
                  actualIP = ''10.0.0.7'', call_messageType = 0\<rparr>)"
proof -
  have h1: "prefix ''v=0'' exampleSDP" by (simp add: exampleSDP_def)
  have h2: "\<not> (8 < length exampleSDP \<and> sublist ''sdp'' (take 8 exampleSDP))"
    by (simp add: exampleSDP_def sublist_Cons_right)
  have h7: "SAPAnnouncer.sourceIP exampleAnnouncer = dottedQuad 192 168 1 10"
    by (simp add: exampleAnnouncer_def example_ip)
  have h8: "0 \<le> SAPAnnouncer.msgIdHash exampleAnnouncer" by (simp add: exampleAnnouncer_def)
  have h9: "SAPAnnouncer.msgIdHash exampleAnnouncer \<le> 65535" by (simp add: exampleAnnouncer_def)
  have o: "(192::nat) < 256" "(168::nat) < 256" "(1::nat) < 256" "(10::nat) < 256" by simp_all
  show ?thesis
    using h1 h2 h7 sap_roundtrip [OF h1 h2 o h7 h8 h9, of zeroFill "''10.0.0.7''"]
    by (simp add: example_ip)
qed

text \<open>
  C1, as stated, fails: a text that begins with \<^verbatim>\<open>v=0\<close> and has no null byte, but has
  \<^verbatim>\<open>sdp\<close> among its first eight bytes, loses those eight bytes to the listener's
  payload-type check, and the announcement is dropped.
\<close>

theorem sap_roundtrip_tagged_text_dropped:
  "prefix ''v=0'' taggedSDP \<and> CHR 0x00 \<notin> set taggedSDP
   \<and> announceThenDecode zeroFill exampleAnnouncer taggedSDP ''10.0.0.7'' = Inr None"
proof -
  have h1: "prefix ''v=0'' taggedSDP" by (simp add: taggedSDP_def)
  have h0: "CHR 0x00 \<notin> set taggedSDP" by (simp add: taggedSDP_def)
  have ne: "taggedSDP \<noteq> []" by (simp add: taggedSDP_def)
  have tag: "8 < length taggedSDP \<and> sublist ''sdp'' (take 8 taggedSDP)"
    by (simp add: taggedSDP_def sublist_Cons_right)
  have rest: "\<not> prefix ''v=0'' (drop 8 taggedSDP)" by (simp add: taggedSDP_def)
  have h7: "SAPAnnouncer.sourceIP exampleAnnouncer = dottedQuad 192 168 1 10"
    by (simp add: exampleAnnouncer_def example_ip)
  have h8: "0 \<le> SAPAnnouncer.msgIdHash exampleAnnouncer" by (simp add: exampleAnnouncer_def)
  have h9: "SAPAnnouncer.msgIdHash exampleAnnouncer \<le> 65535" by (simp add: exampleAnnouncer_def)
  define packet where "packet = [0x20, 0,
            word_of_int (SAPAnnouncer.msgIdHash exampleAnnouncer div 256),
            word_of_int (SAPAnnouncer.msgIdHash exampleAnnouncer),
            word_of_int (int 192), word_of_int (int 168), word_of_int (int 1), word_of_int (int 10)]
           @ Buffer_from (''application/sdp'' @ [CHR 0x00]) @ Buffer_from taggedSDP"
  have enc: "SAPAnnouncer_createSAPPacket zeroFill exampleAnnouncer taggedSDP = Inr packet"
    unfolding SAPAnnouncer_createSAPPacket_def packet_def
    using SAPAnnouncer_packet_dottedQuad [OF h7 h8 h9, of "0x20" zeroFill taggedSDP] by simp
  have dec: "handleSAPMessage packet ''10.0.0.7'' = None"
    using handleSAPMessage_tagged [OF packet_def _ _ _ _ ne, of "''10.0.0.7''"] tag rest
    by (simp add: Let_def)
  show ?thesis using h1 h0 by (simp add: announceThenDecode_def enc dec)
qed

section \<open>Properties of the stream registry\<close>

lemma entriesFor_update:
  "distinct (map fst al) \<Longrightarrow> entriesFor k (AList.update k v al) = [(k, v)]"
proof (induction al)
  case Nil
  then show ?case by (simp add: entriesFor_def)
next
  case (Cons p ps)
  show ?case
  proof (cases "fst p = k")
    case True
    with Cons.prems have "k \<notin> fst ` set ps" by auto
    then have "filter (\<lambda>e. fst e = k) ps = []" by (auto simp: filter_empty_conv)
    with True show ?thesis by (simp add: entriesFor_def)
  next
    case False
    with Cons show ?thesis by (simp add: entriesFor_def)
  qed
qed

lemma registerStream_ignored:
  "streamInfo.sourceIP d = [] \<or> port d = 0 \<Longrightarrow> registerStream this d = (this, JUndefined)"
  by (simp add: registerStream_def)

lemma registerStream_returns: "snd (registerStream this d) = JUndefined"
  by (simp add: registerStream_def Let_def)

lemma registerStream_streams:
  assumes "streamInfo.sourceIP d \<noteq> []" "port d \<noteq> 0"
  shows "AES67Discovery.streams (fst (registerStream this d))
           = AList.update (streamKeyOf d) d (AES67Discovery.streams this)"
    and "globalStreamRegistry (fst (registerStream this d))
           = AList.update (streamKeyOf d) d (globalStreamRegistry this)"
    and "sent (fst (registerStream this d))
           = sent this @ (if map_of (AES67Discovery.streams this) (streamKeyOf d) = None
                            \<and> status d = ''active''
                          then [\<lparr>topic = ''stream/discovered'', node_msg.payload = d\<rparr>] else [])"
  using assms by (simp_all add: registerStream_def Let_def split: option.splits)

text \<open>
  C6, as amended: for two descriptors with the same source address, not empty, and the
  same port, not zero, \<^verbatim>\<open>registerStream\<close> leaves exactly one entry under their key,
  holding the later descriptor, in the discovery map and in the global registry. It
  returns \<^verbatim>\<open>undefined\<close> both times; a \<^verbatim>\<open>stream/discovered\<close> message is sent
  exactly when the key was new and the status is \<^verbatim>\<open>active\<close>, so the second
  registration sends nothing, and a \<^verbatim>\<open>deleted\<close> descriptor is written without a
  message.
\<close>

theorem registerStream_upsert:
  assumes "distinct (map fst (AES67Discovery.streams this))"
    and "streamInfo.sourceIP d1 \<noteq> []" and "port d1 \<noteq> 0"
    and "streamInfo.sourceIP d2 = streamInfo.sourceIP d1" and "port d2 = port d1"
    and "this1 = fst (registerStream this d1)" and "this2 = fst (registerStream this1 d2)"
    and "key = streamInfo.sourceIP d1 @ '':'' @ showInt (port d1)"
  shows "entriesFor key (AES67Discovery.streams this1) = [(key, d1)]
    \<and> entriesFor key (AES67Discovery.streams this2) = [(key, d2)]
    \<and> map_of (AES67Discovery.streams this2) key = Some d2
    \<and> map_of (globalStreamRegistry this2) key = Some d2
    \<and> sent this1 = sent this @
         (if map_of (AES67Discovery.streams this) key = None \<and> status d1 = ''active''
          then [\<lparr>topic = ''stream/discovered'', node_msg.payload = d1\<rparr>] else [])
    \<and> sent this2 = sent this1
    \<and> (status d1 = ''deleted'' \<longrightarrow>
          sent this1 = sent this \<and> map_of (AES67Discovery.streams this1) key = Some d1)
    \<and> snd (registerStream this d1) = JUndefined
    \<and> snd (registerStream this1 d2) = JUndefined"
proof -
  have k1: "streamKeyOf d1 = key" using assms(8) by (simp add: streamKeyOf_def)
  have k2: "streamKeyOf d2 = key" using assms(4,5,8) by (simp add: streamKeyOf_def)
  have g2: "streamInfo.sourceIP d2 \<noteq> []" "port d2 \<noteq> 0" using assms(2-5) by simp_all
  have s1: "AES67Discovery.streams this1 = AList.update key d1 (AES67Discovery.streams this)"
    using registerStream_streams(1) [OF assms(2,3)] assms(6) k1 by simp
  have s2: "AES67Discovery.streams this2 = AList.update key d2 (AES67Discovery.streams this1)"
    using registerStream_streams(1) [OF g2] assms(7) k2 by simp
  have d1: "distinct (map fst (AES67Discovery.streams this1))"
    unfolding s1 using assms(1) by (rule distinct_update)
  have e1: "entriesFor key (AES67Discovery.streams this1) = [(key, d1)]"
    unfolding s1 using assms(1) by (rule entriesFor_update)
  have e2: "entriesFor key (AES67Discovery.streams this2) = [(key, d2)]"
    unfolding s2 using d1 by (rule entriesFor_update)
  have m1: "map_of (AES67Discovery.streams this1) key = Some d1"
    unfolding s1 by (simp add: update_conv')
  have m2: "map_of (AES67Discovery.streams this2) key = Some d2"
    unfolding s2 by (simp add: update_conv')
  have gm: "map_of (globalStreamRegistry this2) key = Some d2"
    using registerStream_streams(2) [OF g2, of this1] assms(7) k2 by (simp add: update_conv')
  have t1: "sent this1 = sent this @
         (if map_of (AES67Discovery.streams this) key = None \<and> status d1 = ''active''
          then [\<lparr>topic = ''stream/discovered'', node_msg.payload = d1\<rparr>] else [])"
    using registerStream_streams(3) [OF assms(2,3), of this] assms(6) k1 by simp
  have t2: "sent this2 = sent this1"
    using registerStream_streams(3) [OF g2, of this1] assms(7) k2 m1 by simp
  have del: "status d1 = ''deleted'' \<longrightarrow> sent this1 = sent this" using t1 by simp
  show ?thesis using e1 e2 m2 gm t1 t2 del m1 registerStream_returns by blast
qed

theorem registerStream_upsert_witness:
  "distinct (map fst (AES67Discovery.streams new_AES67Discovery))
   \<and> streamInfo.sourceIP firstAnnouncement \<noteq> [] \<and> port firstAnnouncement \<noteq> 0
   \<and> streamInfo.sourceIP secondAnnouncement = streamInfo.sourceIP firstAnnouncement
   \<and> port secondAnnouncement = port firstAnnouncement
   \<and> entriesFor (streamInfo.sourceIP firstAnnouncement @ '':'' @ showInt (port firstAnnouncement))
        (AES67Discovery.streams
           (fst (registerStream (fst (registerStream new_AES67Discovery firstAnnouncement))
                   secondAnnouncement)))
      = [(streamInfo.sourceIP firstAnnouncement @ '':'' @ showInt (port firstAnnouncement), secondAnnouncement)]
   \<and> sent (fst (registerStream (fst (registerStream new_AES67Discovery firstAnnouncement))
                  secondAnnouncement))
      = [\<lparr>topic = ''stream/discovered'', node_msg.payload = firstAnnouncement\<rparr>]"
proof -
  have h1: "distinct (map fst (AES67Discovery.streams new_AES67Discovery))"
    by (simp add: new_AES67Discovery_def)
  have h2: "streamInfo.sourceIP firstAnnouncement \<noteq> []"
    by (simp add: firstAnnouncement_def portlessStream_def)
  have h3: "port firstAnnouncement \<noteq> 0"
    by (simp add: firstAnnouncement_def portlessStream_def)
  have h4: "streamInfo.sourceIP secondAnnouncement = streamInfo.sourceIP firstAnnouncement"
    by (simp add: secondAnnouncement_def)
  have h5: "port secondAnnouncement = port firstAnnouncement"
    by (simp add: secondAnnouncement_def)
  have a: "status firstAnnouncement = ''active''" by (simp add: firstAnnouncement_def)
  have n: "map_of (AES67Discovery.streams new_AES67Discovery) k = None" for k
    by (simp add: new_AES67Discovery_def)
  have s: "sent new_AES67Discovery = []" by (simp add: new_AES67Discovery_def)
  show ?thesis
    using h1 h2 h3 h4 h5 registerStream_upsert [OF h1 h2 h3 h4 h5 refl refl refl] a n s
    by simp
qed

text \<open>
  C6, as stated, fails: a descriptor with port 0 (or an empty source address) is ignored
  by the guard at the top of \<^verbatim>\<open>registerStream\<close>, so a \<^verbatim>\<open>deleted\<close> descriptor
  of that kind is not written, and registering it twice leaves no entry. Nor does the
  returned value tell a new key from a known one: it is \<^verbatim>\<open>undefined\<close> for the first
  announcement of a stream and for the second.
\<close>

theorem registerStream_port_zero_not_written:
  "status portlessStream = ''deleted''
   \<and> fst (registerStream new_AES67Discovery portlessStream) = new_AES67Discovery
   \<and> AES67Discovery.streams (fst (registerStream new_AES67Discovery portlessStream)) = []
   \<and> entriesFor (streamKeyOf portlessStream)
        (AES67Discovery.streams
           (fst (registerStream (fst (registerStream new_AES67Discovery portlessStream))
                   portlessStream))) = []
   \<and> snd (registerStream new_AES67Discovery firstAnnouncement) = JUndefined
   \<and> snd (registerStream (fst (registerStream new_AES67Discovery firstAnnouncement))
             secondAnnouncement) = JUndefined"
  by (simp add: registerStream_def portlessStream_def new_AES67Discovery_def entriesFor_def Let_def)

section \<open>Properties of SDP extraction\<close>

text \<open>Without an \<^verbatim>\<open>rtpmap\<close> property the three extractors return their defaults.\<close>

lemma extract_without_rtpmap:
  assumes "getProp media ''rtpmap'' = JUndefined"
  shows "extractChannels parseIntOf media = Finite 2"
    and "extractSampleRate parseIntOf media = Finite 48000"
    and "extractEncoding media = JStr ''L24''"
  using assms
  by (simp_all add: extractChannels_def extractSampleRate_def extractEncoding_def
      AES67_SAMPLE_RATE_def)

text \<open>A parsed media section has no property of that name: its rtpmap lines are under \<^verbatim>\<open>rtp\<close>.\<close>

lemma mediaObject_no_rtpmap: "getProp (mediaObject m) ''rtpmap'' = JUndefined"
  by (simp add: mediaObject_def)

lemma mediaObject_rtp: "getProp (mediaObject m) ''rtp'' = JArray (map rtpObject (m_rtp m))"
  by (simp add: mediaObject_def)

text \<open>On an object that has an \<^verbatim>\<open>rtpmap\<close> array the loops do read it, skipping empty slots.\<close>

lemma extract_with_rtpmap:
  "extractEncoding rtpmapObject = JStr ''L16''"
  "extractSampleRate parseIntOf rtpmapObject = numberOr (parseIntOf (JStr ''44100'')) 48000"
  "extractChannels parseIntOf rtpmapObject = Finite 2"
  by (simp_all add: extractEncoding_def extractSampleRate_def extractChannels_def
      rtpmapObject_def AES67_SAMPLE_RATE_def)

text \<open>
  On an object with an \<^verbatim>\<open>rtpmap\<close> array each extractor takes the first entry that is
  truthy and has a truthy value under its key, and the default when there is none.
\<close>

lemma extractChannels_loop_find:
  "extractChannels_loop parseIntOf es
     = map_option (\<lambda>e. numberOr (parseIntOf (getProp e ''channels'')) 2)
         (find (\<lambda>e. truthy e \<and> truthy (getProp e ''channels'')) es)"
  by (induction es) simp_all

lemma extractSampleRate_loop_find:
  "extractSampleRate_loop parseIntOf es
     = map_option (\<lambda>e. numberOr (parseIntOf (getProp e ''rate'')) AES67_SAMPLE_RATE)
         (find (\<lambda>e. truthy e \<and> truthy (getProp e ''rate'')) es)"
  by (induction es) simp_all

lemma extractEncoding_loop_find:
  "extractEncoding_loop es
     = map_option (\<lambda>e. getProp e ''name'')
         (find (\<lambda>e. truthy e \<and> truthy (getProp e ''name'')) es)"
  by (induction es) simp_all

lemma extract_first_entry:
  "extractChannels parseIntOf (JObject ((''rtpmap'', JArray es) # ps))
     = (case find (\<lambda>e. truthy e \<and> truthy (getProp e ''channels'')) es of
          None \<Rightarrow> Finite 2
        | Some e \<Rightarrow> numberOr (parseIntOf (getProp e ''channels'')) 2)"
  "extractSampleRate parseIntOf (JObject ((''rtpmap'', JArray es) # ps))
     = (case find (\<lambda>e. truthy e \<and> truthy (getProp e ''rate'')) es of
          None \<Rightarrow> Finite 48000
        | Some e \<Rightarrow> numberOr (parseIntOf (getProp e ''rate'')) 48000)"
  "extractEncoding (JObject ((''rtpmap'', JArray es) # ps))
     = (case find (\<lambda>e. truthy e \<and> truthy (getProp e ''name'')) es of
          None \<Rightarrow> JStr ''L24''
        | Some e \<Rightarrow> getProp e ''name'')"
  by (simp_all add: extractChannels_def extractSampleRate_def extractEncoding_def
      extractChannels_loop_find extractSampleRate_loop_find extractEncoding_loop_find
      AES67_SAMPLE_RATE_def split: option.splits)

text \<open>
  C9: for every media section of a parsed session description, and more generally for
  every media object without an \<^verbatim>\<open>rtpmap\<close> property, the descriptor fields that SDP
  extraction computes satisfy \<open>channels \<ge> 1\<close>, \<open>sampleRate > 0\<close> and an encoding that
  is \<^verbatim>\<open>L16\<close> or \<^verbatim>\<open>L24\<close>: they are the defaults 2, 48000 and \<^verbatim>\<open>L24\<close>, whatever the
  rtpmap lines of the section say and whatever \<^verbatim>\<open>parseInt\<close> would return. (Only on
  an object that carries an \<^verbatim>\<open>rtpmap\<close> array would they take the first truthy value.)
\<close>

theorem extract_invariant:
  assumes "getProp media ''rtpmap'' = JUndefined"
  shows "extractChannels parseIntOf media = Finite 2
    \<and> extractSampleRate parseIntOf media = Finite 48000
    \<and> extractEncoding media = JStr ''L24''
    \<and> getProp (mediaObject m) ''rtpmap'' = JUndefined
    \<and> (\<exists>c. extractChannels parseIntOf (mediaObject m) = Finite c \<and> 1 \<le> c)
    \<and> (\<exists>r. extractSampleRate parseIntOf (mediaObject m) = Finite r \<and> 0 < r)
    \<and> extractEncoding (mediaObject m) \<in> {JStr ''L16'', JStr ''L24''}
    \<and> extractChannels parseIntOf (mediaObject m) = Finite 2
    \<and> extractSampleRate parseIntOf (mediaObject m) = Finite 48000
    \<and> extractEncoding (mediaObject m) = JStr ''L24''
    \<and> extractChannels parseIntOf (JObject ((''rtpmap'', JArray es) # ps))
        = (case find (\<lambda>e. truthy e \<and> truthy (getProp e ''channels'')) es of
             None \<Rightarrow> Finite 2
           | Some e \<Rightarrow> numberOr (parseIntOf (getProp e ''channels'')) 2)
    \<and> extractSampleRate parseIntOf (JObject ((''rtpmap'', JArray es) # ps))
        = (case find (\<lambda>e. truthy e \<and> truthy (getProp e ''rate'')) es of
             None \<Rightarrow> Finite 48000
           | Some e \<Rightarrow> numberOr (parseIntOf (getProp e ''rate'')) 48000)
    \<and> extractEncoding (JObject ((''rtpmap'', JArray es) # ps))
        = (case find (\<lambda>e. truthy e \<and> truthy (getProp e ''name'')) es of
             None \<Rightarrow> JStr ''L24''
           | Some e \<Rightarrow> getProp e ''name'')"
proof -
  have n: "getProp (mediaObject m) ''rtpmap'' = JUndefined" by (rule mediaObject_no_rtpmap)
  have g: "extractChannels parseIntOf media = Finite 2"
    "extractSampleRate parseIntOf media = Finite 48000"
    "extractEncoding media = JStr ''L24''"
    using assms by (rule extract_without_rtpmap)+
  have p: "extractChannels parseIntOf (mediaObject m) = Finite 2"
    "extractSampleRate parseIntOf (mediaObject m) = Finite 48000"
    "extractEncoding (mediaObject m) = JStr ''L24''"
    using n by (rule extract_without_rtpmap)+
  have c: "\<exists>c. extractChannels parseIntOf (mediaObject m) = Finite c \<and> 1 \<le> c"
    using p(1) by simp
  have r: "\<exists>r. extractSampleRate parseIntOf (mediaObject m) = Finite r \<and> 0 < r"
    using p(2) by simp
  have e: "extractEncoding (mediaObject m) \<in> {JStr ''L16'', JStr ''L24''}"
    using p(3) by simp
  show ?thesis using g p c r e n extract_first_entry by blast
qed

theorem extract_invariant_witness:
  "getProp (mediaObject l16Section) ''rtpmap'' = JUndefined
   \<and> getProp (mediaObject l16Section) ''rtp''
     = JArray [JObject [(''payload'', JNum (Finite 96)), (''codec'', JStr ''L16''),
                        (''rate'', JNum (Finite 44100)), (''encoding'', JNum (Finite 8))]]
   \<and> extractChannels parseIntNaN (mediaObject l16Section) = Finite 2
   \<and> extractSampleRate parseIntNaN (mediaObject l16Section) = Finite 48000
   \<and> extractEncoding (mediaObject l16Section) = JStr ''L24''"
proof -
  have h: "getProp (mediaObject l16Section) ''rtpmap'' = JUndefined"
    by (simp add: mediaObject_def)
  have l: "getProp (mediaObject l16Section) ''rtp''
     = JArray [JObject [(''payload'', JNum (Finite 96)), (''codec'', JStr ''L16''),
                        (''rate'', JNum (Finite 44100)), (''encoding'', JNum (Finite 8))]]"
    by (simp add: mediaObject_def l16Section_def rtpObject_def)
  show ?thesis using h l extract_invariant [OF h, of parseIntNaN l16Section] by simp
qed

end
